theory Spec2Isabelle
  imports Main "HOL-Library.Sublist"
begin

section \<open>JavaScript values and strings\<close>

text \<open>
  A JavaScript string is modelled as a \<^typ>\<open>string\<close>: the list of the bytes of its UTF-8
  text. \<open>toLowerCase\<close> is modelled on the ASCII letters, \<open>A\<close>..\<open>Z\<close> to \<open>a\<close>..\<open>z\<close>; a byte
  outside ASCII is left as it is. \<open>trim\<close> removes from both ends the white space and the
  line terminators of ECMAScript, each in its UTF-8 bytes: U+0009 to U+000D, U+0020,
  U+00A0, U+1680, U+2000 to U+200A, U+2028, U+2029, U+202F, U+205F, U+3000 and U+FEFF.
\<close>

definition lower_char :: "char \<Rightarrow> char" where
  "lower_char c =
     (if 65 \<le> (of_char c :: nat) \<and> (of_char c :: nat) \<le> 90
      then char_of ((of_char c :: nat) + 32) else c)"

definition toLowerCase :: "string \<Rightarrow> string" where
  "toLowerCase s = map lower_char s"

definition white_space :: "string list" where
  "white_space =
     [[CHR 0x09], [CHR 0x0A], [CHR 0x0B], [CHR 0x0C], [CHR 0x0D], [CHR 0x20],
      [CHR 0xC2, CHR 0xA0],
      [CHR 0xE1, CHR 0x9A, CHR 0x80],
      [CHR 0xE2, CHR 0x80, CHR 0x80], [CHR 0xE2, CHR 0x80, CHR 0x81], [CHR 0xE2, CHR 0x80, CHR 0x82],
      [CHR 0xE2, CHR 0x80, CHR 0x83], [CHR 0xE2, CHR 0x80, CHR 0x84], [CHR 0xE2, CHR 0x80, CHR 0x85],
      [CHR 0xE2, CHR 0x80, CHR 0x86], [CHR 0xE2, CHR 0x80, CHR 0x87], [CHR 0xE2, CHR 0x80, CHR 0x88],
      [CHR 0xE2, CHR 0x80, CHR 0x89], [CHR 0xE2, CHR 0x80, CHR 0x8A],
      [CHR 0xE2, CHR 0x80, CHR 0xA8], [CHR 0xE2, CHR 0x80, CHR 0xA9], [CHR 0xE2, CHR 0x80, CHR 0xAF],
      [CHR 0xE2, CHR 0x81, CHR 0x9F],
      [CHR 0xE3, CHR 0x80, CHR 0x80],
      [CHR 0xEF, CHR 0xBB, CHR 0xBF]]"

text \<open>
  \<open>strip ws s\<close> removes from the front of \<open>s\<close> the byte sequences of \<open>ws\<close> as long as one
  of them is there. \<open>trimStart\<close> strips the white space from the front, \<open>trimEnd\<close> from
  the end, and \<open>trim\<close> from both.
\<close>

function strip :: "string list \<Rightarrow> string \<Rightarrow> string" where
  "strip ws s =
     (case find (\<lambda>w. w \<noteq> [] \<and> prefix w s) ws of
        None \<Rightarrow> s
      | Some w \<Rightarrow> strip ws (drop (length w) s))"
  by pat_completeness auto
termination
proof (relation "measure (\<lambda>(ws, s). length s)")
  fix ws :: "string list" and s w :: string
  assume "find (\<lambda>w. w \<noteq> [] \<and> prefix w s) ws = Some w"
  then have "w \<noteq> []" "prefix w s" by (auto simp: find_Some_iff)
  then have "s \<noteq> []" by auto
  with \<open>w \<noteq> []\<close> show "((ws, drop (length w) s), (ws, s)) \<in> measure (\<lambda>(ws, s). length s)"
    by simp
qed simp

declare strip.simps [simp del]

definition trimStart :: "string \<Rightarrow> string" where
  "trimStart s = strip white_space s"

definition trimEnd :: "string \<Rightarrow> string" where
  "trimEnd s = rev (strip (map rev white_space) (rev s))"

definition trim :: "string \<Rightarrow> string" where
  "trim s = trimEnd (trimStart s)"

text \<open>
  The values a field of a submitted card can hold: the tests declare the fields as
  \<open>string | null | undefined\<close>. A submission payload is a JavaScript object, a function
  from property names to values, \<open>Undefined\<close> where the property is absent.
\<close>

datatype jsval = Undefined | Null | Str string

type_synonym submission = "string \<Rightarrow> jsval"

text \<open>JavaScript truthiness: \<open>!v\<close> is true for \<open>undefined\<close>, \<open>null\<close> and the empty string.\<close>

fun truthy :: "jsval \<Rightarrow> bool" where
  "truthy Undefined = False"
| "truthy Null = False"
| "truthy (Str s) = (s \<noteq> [])"

text \<open>The conversion a template literal \<open>${v}\<close> applies.\<close>

fun ToString :: "jsval \<Rightarrow> string" where
  "ToString Undefined = ''undefined''"
| "ToString Null = ''null''"
| "ToString (Str s) = s"

text \<open>
  A thrown value is an \<open>Error\<close> object: its \<open>message\<close> and, for the errors of the file
  system, its \<open>code\<close>. \<open>new Error(msg)\<close> has no code. A function that can throw returns
  \<open>Inl\<close> of the error or \<open>Inr\<close> of its value.
\<close>

record js_error =
  code :: "string option"
  message :: string

definition Error :: "string \<Rightarrow> js_error" where
  "Error msg = \<lparr>code = None, message = msg\<rparr>"

definition quote :: string where
  "quote = [char_of (39::nat)]"

text \<open>The error of reading a property of \<open>undefined\<close>.\<close>

definition TypeError_undefined :: "string \<Rightarrow> js_error" where
  "TypeError_undefined property =
     Error (''Cannot read properties of undefined (reading '' @ quote @ property @ quote @ '')'')"

text \<open>
  A card is an object literal; it is kept as the JSON document it is.
\<close>

datatype json =
    JNull
  | JBool bool
  | JNumber int
  | JString string
  | JArray "json list"
  | JObject "(string \<times> json) list"

section \<open>The turn context\<close>

text \<open>
  The incoming activity carries an optional text (\<open>activity.text\<close>, \<open>None\<close> when it is
  \<open>undefined\<close> or \<open>null\<close>) and an optional submission payload (\<open>activity.value\<close>,
  \<open>None\<close> when absent). An outgoing activity is a message with an optional text and a
  list of attachments. \<open>context.sendActivity\<close> appends one outgoing activity to the
  activities sent in this turn.
\<close>

record incoming =
  activity_text :: "string option"
  activity_value :: "submission option"

record attachment =
  contentType :: string
  content :: json

record outgoing =
  out_text :: "string option"
  out_attachments :: "attachment list"

record turn_context =
  activity :: incoming
  sent :: "outgoing list"

datatype DialogTurnStatus = Empty | Waiting | Complete | Cancelled

definition text_message :: "string \<Rightarrow> outgoing" where
  "text_message s = \<lparr>out_text = Some s, out_attachments = []\<rparr>"

definition sendActivity :: "turn_context \<Rightarrow> outgoing \<Rightarrow> turn_context" where
  "sendActivity context a = context\<lparr>sent := sent context @ [a]\<rparr>"

text \<open>\<open>CardFactory.adaptiveCard\<close> and \<open>MessageFactory.attachment\<close> of the bot SDK.\<close>

definition adaptiveCard :: "json \<Rightarrow> attachment" where
  "adaptiveCard c = \<lparr>contentType = ''application/vnd.microsoft.card.adaptive'', content = c\<rparr>"

definition attachment_message :: "attachment \<Rightarrow> outgoing" where
  "attachment_message a = \<lparr>out_text = None, out_attachments = [a]\<rparr>"

section \<open>The cards and messages of InputCardDialog\<close>

text \<open>
  The symbols that open the messages, as the bytes the literals of the source file hold:
  U+201A U+00F9 U+00E5 before the required-fields message, U+201A U+00FA U+00D6 before
  the three success messages, U+F8FF U+00FC U+00A7 U+00F1 before the list of commands and
  U+201A U+00C4 U+00A2 before each of its items.
\<close>

definition cross_mark :: string where
  "cross_mark = [CHR 0xE2, CHR 0x80, CHR 0x9A, CHR 0xC3, CHR 0xB9, CHR 0xC3, CHR 0xA5]"

definition check_mark :: string where
  "check_mark = [CHR 0xE2, CHR 0x80, CHR 0x9A, CHR 0xC3, CHR 0xBA, CHR 0xC3, CHR 0x96]"

definition robot_face :: string where
  "robot_face = [CHR 0xEF, CHR 0xA3, CHR 0xBF, CHR 0xC3, CHR 0xBC, CHR 0xC2, CHR 0xA7, CHR 0xC3, CHR 0xB1]"

definition bullet :: string where
  "bullet = [CHR 0xE2, CHR 0x80, CHR 0x9A, CHR 0xC3, CHR 0x84, CHR 0xC2, CHR 0xA2]"

definition jiraInformationCard :: json where
  "jiraInformationCard = JObject [
     (''type'', JString ''AdaptiveCard''),
     (''version'', JString ''1.3''),
     (''body'', JArray [
        JObject [(''type'', JString ''TextBlock''),
                 (''text'', JString ''Configure Jira Notification Form''),
                 (''weight'', JString ''Bolder''),
                 (''size'', JString ''Medium''),
                 (''color'', JString ''Accent'')],
        JObject [(''type'', JString ''TextBlock''),
                 (''text'', JString ''Please fill out the JIRA Information:''),
                 (''wrap'', JBool True),
                 (''spacing'', JString ''Medium'')],
        JObject [(''type'', JString ''Input.Text''),
                 (''id'', JString ''sprintId''),
                 (''label'', JString ''Sprint ID''),
                 (''placeholder'', JString ''Enter the ID of your Sprint''),
                 (''isRequired'', JBool True),
                 (''errorMessage'', JString ''Sprint ID is required'')],
        JObject [(''type'', JString ''Input.Text''),
                 (''id'', JString ''boardId''),
                 (''label'', JString ''Board Id''),
                 (''placeholder'', JString ''Enter the ID of your Board''),
                 (''isRequired'', JBool True),
                 (''errorMessage'', JString ''Board ID is required'')],
        JObject [(''type'', JString ''Input.Text''),
                 (''id'', JString ''sprintKey''),
                 (''label'', JString ''Sprint Key''),
                 (''placeholder'', JString ''Enter the Key of your Sprint''),
                 (''isRequired'', JBool False),
                 (''style'', JString ''Tel'')],
        JObject [(''type'', JString ''Input.Text''),
                 (''id'', JString ''sprintName''),
                 (''label'', JString ''Sprint Name''),
                 (''placeholder'', JString ''Enter the Name of your Sprint''),
                 (''isRequired'', JBool False),
                 (''style'', JString ''Tel'')]]),
     (''actions'', JArray [
        JObject [(''type'', JString ''Action.Submit''),
                 (''title'', JString ''Schedule Notification''),
                 (''data'', JObject [(''type'', JString ''jiraInformation'')])]])]"

definition cancelNotificationCard :: json where
  "cancelNotificationCard = JObject [
     (''type'', JString ''AdaptiveCard''),
     (''version'', JString ''1.3''),
     (''body'', JArray [
        JObject [(''type'', JString ''TextBlock''),
                 (''text'', JString ''Cancel Jira Notification''),
                 (''weight'', JString ''Bolder''),
                 (''size'', JString ''Medium''),
                 (''color'', JString ''Accent'')],
        JObject [(''type'', JString ''Input.ChoiceSet''),
                 (''id'', JString ''choice''),
                 (''label'', JString ''Are you sure you want to cancel the notification?''),
                 (''isRequired'', JBool True),
                 (''style'', JString ''compact''),
                 (''isMultiSelect'', JBool False),
                 (''errorMessage'', JString ''Your choice is necessary.''),
                 (''choices'', JArray [
                    JObject [(''title'', JString ''Yes''), (''value'', JString ''yes'')],
                    JObject [(''title'', JString ''No''), (''value'', JString ''no'')]])]]),
     (''actions'', JArray [
        JObject [(''type'', JString ''Action.Submit''),
                 (''title'', JString ''Submit Choice''),
                 (''data'', JObject [(''type'', JString ''cancelNotification'')])]])]"

definition promptToAgentCard :: json where
  "promptToAgentCard = JObject [
     (''type'', JString ''AdaptiveCard''),
     (''version'', JString ''1.3''),
     (''body'', JArray [
        JObject [(''type'', JString ''TextBlock''),
                 (''text'', JString ''Send Prompt To the Agent''),
                 (''weight'', JString ''Bolder''),
                 (''size'', JString ''Medium''),
                 (''color'', JString ''Accent'')],
        JObject [(''type'', JString ''Input.Text''),
                 (''id'', JString ''prompt''),
                 (''label'', JString ''Prompt''),
                 (''placeholder'', JString ''Enter the prompt you want to forward to the Agent''),
                 (''isRequired'', JBool True),
                 (''style'', JString ''Tel'')]]),
     (''actions'', JArray [
        JObject [(''type'', JString ''Action.Submit''),
                 (''title'', JString ''Submit Prompt''),
                 (''data'', JObject [(''type'', JString ''prompt'')])]])]"

definition helpMessage :: string where
  "helpMessage =
     robot_face @ '' **Available Commands:**\<newline>\<newline>'' @
     bullet @ '' **Configure** - To setup a notification schedule.\<newline>\<newline>'' @
     bullet @ '' **Prompt** - To make the agent execute a prompt of your choice.\<newline>\<newline>'' @
     bullet @ '' **Cancel** - To cancel a notification schedule.\<newline>\<newline>'' @
     ''Type any command to see the interactive card!''"

definition requiredFieldsMessage :: string where
  "requiredFieldsMessage =
     cross_mark @ '' Please fill in all required fields (Sprint ID and Board ID).''"

definition notificationCreatedMessage :: "jsval \<Rightarrow> jsval \<Rightarrow> string" where
  "notificationCreatedMessage sprintId boardId =
     check_mark @ '' **Notification Created Successfully!**\<newline>\<newline>'' @
     ''**Sprint ID:** '' @ ToString sprintId @ ''\<newline>'' @
     ''**Board ID:** '' @ ToString boardId @ ''\<newline>''"

definition promptSentMessage :: string where
  "promptSentMessage = check_mark @ '' **Prompt Sent To Agent Successfully!**\<newline>\<newline>''"

definition cancelledMessage :: string where
  "cancelledMessage = check_mark @ '' Notification successfully cancelled.''"

definition notCancelledMessage :: string where
  "notCancelledMessage = ''Notification has not been cancelled.''"

definition thankYouMessage :: string where
  "thankYouMessage = ''Thank you for your submission!''"

section \<open>InputCardDialog\<close>

definition sendJiraInformationCard :: "turn_context \<Rightarrow> turn_context" where
  "sendJiraInformationCard context =
     sendActivity context (attachment_message (adaptiveCard jiraInformationCard))"

definition sendCancelNotificationCard :: "turn_context \<Rightarrow> turn_context" where
  "sendCancelNotificationCard context =
     sendActivity context (attachment_message (adaptiveCard cancelNotificationCard))"

definition sendPromptToAgentCard :: "turn_context \<Rightarrow> turn_context" where
  "sendPromptToAgentCard context =
     sendActivity context (attachment_message (adaptiveCard promptToAgentCard))"

definition sendCommandList :: "turn_context \<Rightarrow> turn_context" where
  "sendCommandList context = sendActivity context (text_message helpMessage)"

definition handleJiraInformationSubmission :: "turn_context \<Rightarrow> submission \<Rightarrow> turn_context" where
  "handleJiraInformationSubmission context data =
     (let sprintId = data ''sprintId''; boardId = data ''boardId'' in
      if \<not> truthy sprintId \<or> \<not> truthy boardId
      then sendActivity context (text_message requiredFieldsMessage)
      else sendActivity context (text_message (notificationCreatedMessage sprintId boardId)))"

definition handlePromptSubmission :: "turn_context \<Rightarrow> submission \<Rightarrow> turn_context" where
  "handlePromptSubmission context data = sendActivity context (text_message promptSentMessage)"

definition handleCancelNotificationSubmission :: "turn_context \<Rightarrow> submission \<Rightarrow> turn_context" where
  "handleCancelNotificationSubmission context data =
     (let response =
        (if data ''choice'' = Str ''yes'' then cancelledMessage
         else if data ''choice'' = Str ''no'' then notCancelledMessage
         else '''')
      in sendActivity context (text_message response))"

text \<open>
  \<open>handleCardSubmission\<close> reads \<open>context.activity.value\<close> itself; reading \<open>type\<close> of
  an absent payload throws. The \<open>switch\<close> compares the \<open>type\<close> property with \<open>===\<close>.
\<close>

definition handleCardSubmission :: "turn_context \<Rightarrow> js_error + turn_context" where
  "handleCardSubmission context =
     (case activity_value (activity context) of
        None \<Rightarrow> Inl (TypeError_undefined ''type'')
      | Some submissionData \<Rightarrow>
          let submissionType = submissionData ''type'' in
          if submissionType = Str ''jiraInformation''
          then Inr (handleJiraInformationSubmission context submissionData)
          else if submissionType = Str ''cancelNotification''
          then Inr (handleCancelNotificationSubmission context submissionData)
          else if submissionType = Str ''prompt''
          then Inr (handlePromptSubmission context submissionData)
          else Inr (sendActivity context (text_message thankYouMessage)))"

text \<open>
  \<open>userMessage\<close> is \<open>context.activity.text?.toLowerCase().trim()\<close>: \<open>None\<close> when the
  text is absent. After the branch that was taken the step ends the dialog, which is the
  status \<open>Complete\<close> of the turn; an error of the branch leaves the step before that.
\<close>

definition userMessage :: "turn_context \<Rightarrow> string option" where
  "userMessage context = map_option (\<lambda>t. trim (toLowerCase t)) (activity_text (activity context))"

definition processUserInputStep :: "turn_context \<Rightarrow> js_error + DialogTurnStatus \<times> turn_context" where
  "processUserInputStep context =
     (case (if activity_value (activity context) \<noteq> None then handleCardSubmission context
            else if userMessage context = Some ''help'' then Inr (sendCommandList context)
            else if userMessage context = Some ''configure'' then Inr (sendJiraInformationCard context)
            else if userMessage context = Some ''prompt'' then Inr (sendPromptToAgentCard context)
            else if userMessage context = Some ''cancel'' then Inr (sendCancelNotificationCard context)
            else Inr (sendCommandList context)) of
        Inl error \<Rightarrow> Inl error
      | Inr context' \<Rightarrow> Inr (Complete, context'))"

text \<open>
  A turn as the dialog receives it: the incoming activity and nothing sent yet.
\<close>

definition turn_of :: "string option \<Rightarrow> submission option \<Rightarrow> turn_context" where
  "turn_of t v = \<lparr>activity = \<lparr>activity_text = t, activity_value = v\<rparr>, sent = []\<rparr>"

text \<open>
  The reading of a missing field in the specification: absent, \<open>null\<close>, empty, or blank
  after trimming. The submission of the tests' blank-field case, with a Sprint ID of
  three spaces.
\<close>

fun spec_missing_or_blank :: "jsval \<Rightarrow> bool" where
  "spec_missing_or_blank Undefined = True"
| "spec_missing_or_blank Null = True"
| "spec_missing_or_blank (Str s) = (trim s = [])"

definition blank_jira_submission :: submission where
  "blank_jira_submission =
     (\<lambda>k. Undefined)(''type'' := Str ''jiraInformation'', ''sprintId'' := Str ''   '',
                        ''boardId'' := Str ''BOARD-456'')"

section \<open>JsonDb\<close>

text \<open>
  \<open>JsonDb\<close> calls the Node.js platform: \<open>path.dirname\<close>, \<open>mkdirSync\<close> (always with
  \<open>recursive: true\<close>), \<open>writeFileSync\<close>, \<open>readFileSync\<close> and \<open>accessSync\<close> of \<open>fs\<close>,
  and \<open>JSON.stringify\<close> and \<open>JSON.parse\<close>. They are parameters of the model: \<open>'s\<close> is the
  state of the file system, \<open>'v\<close> the type \<open>T\<close> of the stored values. \<open>JSON.stringify\<close>
  returns \<open>undefined\<close> (\<open>None\<close>) for a value with no JSON text, and \<open>writeFileSync\<close> is
  handed whatever it returned.
\<close>

record ('s, 'v) platform =
  dirname :: "string \<Rightarrow> string"
  mkdirSync :: "string \<Rightarrow> 's \<Rightarrow> (js_error + unit) \<times> 's"
  writeFileSync :: "string \<Rightarrow> string option \<Rightarrow> 's \<Rightarrow> (js_error + unit) \<times> 's"
  readFileSync :: "string \<Rightarrow> 's \<Rightarrow> js_error + string"
  accessSync :: "string \<Rightarrow> 's \<Rightarrow> js_error + unit"
  JSON_stringify :: "'v \<Rightarrow> int \<Rightarrow> js_error + string option"
  JSON_parse :: "string \<Rightarrow> js_error + 'v"

record store_options =
  createDirectory :: "bool option"
  indent :: "int option"

text \<open>
  \<open>JsonDb.store\<close>: the options default to \<open>createDirectory = true\<close> and \<open>indent = 2\<close>;
  whatever the body throws is caught and thrown again as
  \<open>Failed to store data to <path>: <message>\<close>. The file system is returned as the body
  left it, also when the call fails.
\<close>

definition store ::
  "('s, 'v) platform \<Rightarrow> string \<Rightarrow> 'v \<Rightarrow> store_options option \<Rightarrow> 's \<Rightarrow> (js_error + unit) \<times> 's" where
  "store P filePath data options fs =
     (let opts = (case options of None \<Rightarrow> \<lparr>createDirectory = None, indent = None\<rparr> | Some opt \<Rightarrow> opt);
          createDirectory' = (case createDirectory opts of None \<Rightarrow> True | Some b \<Rightarrow> b);
          indent' = (case indent opts of None \<Rightarrow> 2 | Some n \<Rightarrow> n);
          (created, fs1) =
            (if createDirectory' then mkdirSync P (dirname P filePath) fs else (Inr (), fs));
          (written, fs2) =
            (case created of
               Inl error \<Rightarrow> (Inl error, fs1)
             | Inr _ \<Rightarrow>
                 (case JSON_stringify P data indent' of
                    Inl error \<Rightarrow> (Inl error, fs1)
                  | Inr jsonString \<Rightarrow> writeFileSync P filePath jsonString fs1))
      in case written of
           Inl error \<Rightarrow>
             (Inl (Error (''Failed to store data to '' @ filePath @ '': '' @ message error)), fs2)
         | Inr _ \<Rightarrow> (Inr (), fs2))"

text \<open>
  \<open>JsonDb.load\<close>: an error of \<open>readFileSync\<close> or of \<open>JSON.parse\<close> is caught; with the
  code \<open>ENOENT\<close> it becomes \<open>Error("File not found ")\<close>, otherwise
  \<open>Failed to load data from <path>: <message>\<close>. The line written to the console on
  the first of the two paths is left out.
\<close>

definition load :: "('s, 'v) platform \<Rightarrow> string \<Rightarrow> 's \<Rightarrow> js_error + 'v" where
  "load P filePath fs =
     (case (case readFileSync P filePath fs of
              Inl error \<Rightarrow> Inl error
            | Inr fileContent \<Rightarrow> JSON_parse P fileContent) of
        Inl error \<Rightarrow>
          if code error = Some ''ENOENT''
          then Inl (Error ''File not found '')
          else Inl (Error (''Failed to load data from '' @ filePath @ '': '' @ message error))
      | Inr v \<Rightarrow> Inr v)"

text \<open>\<open>JsonDb.exists\<close>: \<open>true\<close> when \<open>accessSync\<close> returns, \<open>false\<close> when it throws.\<close>

definition exists :: "('s, 'v) platform \<Rightarrow> string \<Rightarrow> 's \<Rightarrow> js_error + bool" where
  "exists P filePath fs =
     (case accessSync P filePath fs of Inl _ \<Rightarrow> Inr False | Inr _ \<Rightarrow> Inr True)"

text \<open>
  The two properties of the platform the round trip rests on: a file that was written
  reads back as it was written, and the value has a JSON text that parses back to it.
\<close>

definition read_after_write :: "('s, 'v) platform \<Rightarrow> bool" where
  "read_after_write P =
     (\<forall>p t fs fs'. writeFileSync P p (Some t) fs = (Inr (), fs') \<longrightarrow> readFileSync P p fs' = Inr t)"

definition serializable :: "('s, 'v) platform \<Rightarrow> 'v \<Rightarrow> int \<Rightarrow> bool" where
  "serializable P v n =
     (case JSON_stringify P v n of Inr (Some t) \<Rightarrow> JSON_parse P t = Inr v | _ \<Rightarrow> False)"

text \<open>The indentation a call of \<open>store\<close> with the options \<open>options\<close> passes on.\<close>

definition effective_indent :: "store_options option \<Rightarrow> int" where
  "effective_indent options =
     (case options of None \<Rightarrow> 2 | Some opt \<Rightarrow> (case indent opt of None \<Rightarrow> 2 | Some n \<Rightarrow> n))"

section \<open>An in-memory platform\<close>

text \<open>
  A small platform on which the functions of \<open>JsonDb\<close> run on concrete inputs. The file
  system is a list of entries by path, the latest first; a path names the entry stored
  under that very string. \<open>mkdirSync\<close> enters the directory it is given, and a file can
  be written where the directory of its path is entered. Values are \<^typ>\<open>json\<close>
  documents with integer numbers.
\<close>

datatype entry = File string | Directory

type_synonym memfs = "(string \<times> entry) list"

definition errno :: "string \<Rightarrow> string \<Rightarrow> string \<Rightarrow> string \<Rightarrow> js_error" where
  "errno c description syscall p =
     \<lparr>code = Some c, message = c @ '': '' @ description @ '', '' @ syscall @ '' '' @ quote @ p @ quote\<rparr>"

definition ENOENT :: "string \<Rightarrow> string \<Rightarrow> js_error" where
  "ENOENT syscall p = errno ''ENOENT'' ''no such file or directory'' syscall p"

definition EISDIR :: "string \<Rightarrow> string \<Rightarrow> js_error" where
  "EISDIR syscall p = errno ''EISDIR'' ''illegal operation on a directory'' syscall p"

definition EEXIST :: "string \<Rightarrow> string \<Rightarrow> js_error" where
  "EEXIST syscall p = errno ''EEXIST'' ''file already exists'' syscall p"

text \<open>\<open>path.dirname\<close> of POSIX paths, as Node.js computes it.\<close>

definition mem_dirname :: "string \<Rightarrow> string" where
  "mem_dirname p =
     (if p = [] then ''.''
      else
        let hasRoot = (hd p = CHR ''/'');
            r = dropWhile (\<lambda>c. c \<noteq> CHR ''/'') (dropWhile (\<lambda>c. c = CHR ''/'') (rev (tl p)))
        in if r = [] then (if hasRoot then ''/'' else ''.'')
           else if hasRoot \<and> length r = 1 then ''//''
           else hd p # rev (tl r))"

definition mem_mkdirSync :: "string \<Rightarrow> memfs \<Rightarrow> (js_error + unit) \<times> memfs" where
  "mem_mkdirSync d fs =
     (case map_of fs d of
        Some (File _) \<Rightarrow> (Inl (EEXIST ''mkdir'' d), fs)
      | Some Directory \<Rightarrow> (Inr (), fs)
      | None \<Rightarrow> (Inr (), (d, Directory) # fs))"

definition mem_writeFileSync :: "string \<Rightarrow> string option \<Rightarrow> memfs \<Rightarrow> (js_error + unit) \<times> memfs" where
  "mem_writeFileSync p d fs =
     (case d of
        None \<Rightarrow>
          (Inl \<lparr>code = Some ''ERR_INVALID_ARG_TYPE'',
                message = ''The data argument must be of type string. Received undefined''\<rparr>, fs)
      | Some t \<Rightarrow>
          if map_of fs p = Some Directory then (Inl (EISDIR ''open'' p), fs)
          else if map_of fs (mem_dirname p) = Some Directory then (Inr (), (p, File t) # fs)
          else (Inl (ENOENT ''open'' p), fs))"

definition mem_readFileSync :: "string \<Rightarrow> memfs \<Rightarrow> js_error + string" where
  "mem_readFileSync p fs =
     (case map_of fs p of
        None \<Rightarrow> Inl (ENOENT ''open'' p)
      | Some Directory \<Rightarrow> Inl \<lparr>code = Some ''EISDIR'', message = ''EISDIR: illegal operation on a directory, read''\<rparr>
      | Some (File t) \<Rightarrow> Inr t)"

definition mem_accessSync :: "string \<Rightarrow> memfs \<Rightarrow> js_error + unit" where
  "mem_accessSync p fs =
     (case map_of fs p of None \<Rightarrow> Inl (ENOENT ''access'' p) | Some _ \<Rightarrow> Inr ())"

subsection \<open>JSON text\<close>

definition dquote :: char where
  "dquote = char_of (34::nat)"

definition backslash :: char where
  "backslash = char_of (92::nat)"

definition digit_char :: "nat \<Rightarrow> char" where
  "digit_char d = (if d < 10 then char_of (48 + d) else char_of (87 + d))"

function digits :: "nat \<Rightarrow> string" where
  "digits n = (if n < 10 then [digit_char n] else digits (n div 10) @ [digit_char (n mod 10)])"
  by pat_completeness auto
termination
  by (relation "measure id") auto

declare digits.simps [simp del]

definition number_text :: "int \<Rightarrow> string" where
  "number_text i = (if i < 0 then CHR ''-'' # digits (nat (- i)) else digits (nat i))"

text \<open>\<open>QuoteJSONString\<close>: the two-character escapes, \<open>\u00XX\<close> for the other control characters.\<close>

definition escape_char :: "char \<Rightarrow> string" where
  "escape_char c =
     (let n = (of_char c :: nat) in
      if n = 8 then [backslash, CHR ''b'']
      else if n = 9 then [backslash, CHR ''t'']
      else if n = 10 then [backslash, CHR ''n'']
      else if n = 12 then [backslash, CHR ''f'']
      else if n = 13 then [backslash, CHR ''r'']
      else if c = dquote then [backslash, dquote]
      else if c = backslash then [backslash, backslash]
      else if n < 32 then [backslash, CHR ''u'', CHR ''0'', CHR ''0'', digit_char (n div 16), digit_char (n mod 16)]
      else [c])"

definition quote_string :: "string \<Rightarrow> string" where
  "quote_string s = dquote # concat (map escape_char s) @ [dquote]"

fun intercalate :: "string \<Rightarrow> string list \<Rightarrow> string" where
  "intercalate sep [] = []"
| "intercalate sep [x] = x"
| "intercalate sep (x # y # ys) = x @ sep @ intercalate sep (y # ys)"

text \<open>
  \<open>SerializeJSONProperty\<close> with the gap \<open>gap\<close> and the current indentation \<open>ind\<close>: an
  empty array is \<open>[]\<close>, an empty object \<open>{}\<close>; with an empty gap the elements are joined
  by commas, otherwise each stands on a line of its own.
\<close>

fun serialize :: "string \<Rightarrow> string \<Rightarrow> json \<Rightarrow> string" where
  "serialize gap ind JNull = ''null''"
| "serialize gap ind (JBool b) = (if b then ''true'' else ''false'')"
| "serialize gap ind (JNumber i) = number_text i"
| "serialize gap ind (JString s) = quote_string s"
| "serialize gap ind (JArray vs) =
     (let partial = map (serialize gap (ind @ gap)) vs in
      if partial = [] then ''[]''
      else if gap = [] then ''['' @ intercalate '','' partial @ '']''
      else ''['' @ ''\<newline>'' @ (ind @ gap) @ intercalate ('','' @ ''\<newline>'' @ (ind @ gap)) partial
           @ ''\<newline>'' @ ind @ '']'')"
| "serialize gap ind (JObject kvs) =
     (let partial = map (\<lambda>(k, v). quote_string k @ '':'' @ (if gap = [] then [] else '' '')
                                    @ serialize gap (ind @ gap) v) kvs in
      if partial = [] then ''{}''
      else if gap = [] then ''{'' @ intercalate '','' partial @ ''}''
      else ''{'' @ ''\<newline>'' @ (ind @ gap) @ intercalate ('','' @ ''\<newline>'' @ (ind @ gap)) partial
           @ ''\<newline>'' @ ind @ ''}'')"

text \<open>\<open>JSON.stringify(value, null, space)\<close>: the gap is \<open>space\<close> blanks, ten at most.\<close>

definition mem_stringify :: "json \<Rightarrow> int \<Rightarrow> js_error + string option" where
  "mem_stringify v space = Inr (Some (serialize (replicate (nat (min space 10)) CHR '' '') [] v))"

text \<open>
  \<open>JSON.parse\<close>, by recursive descent. Every call consumes a character before it
  recurses, so the length of the text bounds the depth; \<open>None\<close> is a syntax error.
  Fractions, exponents and \<open>\u\<close> escapes beyond ASCII are not part of this platform, and
  an object keeps its members in the order of the text.
\<close>

definition json_space :: "char \<Rightarrow> bool" where
  "json_space c = (c = CHR '' '' \<or> c = CHR ''\<newline>'' \<or> (of_char c :: nat) = 9 \<or> (of_char c :: nat) = 13)"

definition skip_ws :: "string \<Rightarrow> string" where
  "skip_ws s = dropWhile json_space s"

definition is_digit :: "char \<Rightarrow> bool" where
  "is_digit c = (48 \<le> (of_char c :: nat) \<and> (of_char c :: nat) \<le> 57)"

definition hex_value :: "char \<Rightarrow> nat option" where
  "hex_value c =
     (let n = (of_char c :: nat) in
      if 48 \<le> n \<and> n \<le> 57 then Some (n - 48)
      else if 97 \<le> n \<and> n \<le> 102 then Some (n - 87)
      else if 65 \<le> n \<and> n \<le> 70 then Some (n - 55)
      else None)"

definition unescape :: "char \<Rightarrow> char option" where
  "unescape e =
     (if e = dquote then Some dquote
      else if e = backslash then Some backslash
      else if e = CHR ''/'' then Some CHR ''/''
      else if e = CHR ''b'' then Some (char_of (8::nat))
      else if e = CHR ''f'' then Some (char_of (12::nat))
      else if e = CHR ''n'' then Some (char_of (10::nat))
      else if e = CHR ''r'' then Some (char_of (13::nat))
      else if e = CHR ''t'' then Some (char_of (9::nat))
      else None)"

definition cons_fst :: "'a \<Rightarrow> ('a list \<times> 'b) option \<Rightarrow> ('a list \<times> 'b) option" where
  "cons_fst x r = (case r of None \<Rightarrow> None | Some (xs, rest) \<Rightarrow> Some (x # xs, rest))"

fun parse_chars :: "string \<Rightarrow> (string \<times> string) option" where
  "parse_chars [] = None"
| "parse_chars (c # cs) =
     (if c = dquote then Some ([], cs)
      else if c = backslash then
        (case cs of
           [] \<Rightarrow> None
         | e # r \<Rightarrow>
             if e = CHR ''u'' then
               (case r of
                  h1 # h2 # h3 # h4 # r' \<Rightarrow>
                    (case (hex_value h1, hex_value h2, hex_value h3, hex_value h4) of
                       (Some a, Some b, Some c', Some d) \<Rightarrow>
                         if a = 0 \<and> b = 0 \<and> c' < 8
                         then cons_fst (char_of (16 * c' + d)) (parse_chars r')
                         else None
                     | _ \<Rightarrow> None)
                | _ \<Rightarrow> None)
             else
               (case unescape e of
                  None \<Rightarrow> None
                | Some ch \<Rightarrow> cons_fst ch (parse_chars r)))
      else if (of_char c :: nat) < 32 then None
      else cons_fst c (parse_chars cs))"

definition parse_number :: "string \<Rightarrow> (json \<times> string) option" where
  "parse_number s =
     (let negative = (s \<noteq> [] \<and> hd s = CHR ''-'');
          s1 = (if negative then tl s else s);
          ds = takeWhile is_digit s1;
          rest = dropWhile is_digit s1;
          n = foldl (\<lambda>a d. 10 * a + ((of_char d :: nat) - 48)) 0 ds
      in if ds = [] \<or> (length ds > 1 \<and> hd ds = CHR ''0'') then None
         else if rest \<noteq> [] \<and> (hd rest = CHR ''.'' \<or> hd rest = CHR ''e'' \<or> hd rest = CHR ''E'') then None
         else Some (JNumber (if negative then - int n else int n), rest))"

fun parse_value :: "nat \<Rightarrow> string \<Rightarrow> (json \<times> string) option"
  and parse_elements :: "nat \<Rightarrow> string \<Rightarrow> (json list \<times> string) option"
  and parse_members :: "nat \<Rightarrow> string \<Rightarrow> ((string \<times> json) list \<times> string) option" where
  "parse_value 0 s = None"
| "parse_value (Suc n) s =
     (case skip_ws s of
        [] \<Rightarrow> None
      | c # r \<Rightarrow>
          if c = CHR ''{'' then
            (if skip_ws r \<noteq> [] \<and> hd (skip_ws r) = CHR ''}'' then Some (JObject [], tl (skip_ws r))
             else (case parse_members n r of None \<Rightarrow> None | Some (kvs, rest) \<Rightarrow> Some (JObject kvs, rest)))
          else if c = CHR ''['' then
            (if skip_ws r \<noteq> [] \<and> hd (skip_ws r) = CHR '']'' then Some (JArray [], tl (skip_ws r))
             else (case parse_elements n r of None \<Rightarrow> None | Some (vs, rest) \<Rightarrow> Some (JArray vs, rest)))
          else if c = dquote then
            (case parse_chars r of None \<Rightarrow> None | Some (str, rest) \<Rightarrow> Some (JString str, rest))
          else if take 4 (c # r) = ''null'' then Some (JNull, drop 4 (c # r))
          else if take 4 (c # r) = ''true'' then Some (JBool True, drop 4 (c # r))
          else if take 5 (c # r) = ''false'' then Some (JBool False, drop 5 (c # r))
          else parse_number (c # r))"
| "parse_elements 0 s = None"
| "parse_elements (Suc n) s =
     (case parse_value n s of
        None \<Rightarrow> None
      | Some (v, rest) \<Rightarrow>
          (case skip_ws rest of
             [] \<Rightarrow> None
           | c # r \<Rightarrow>
               if c = CHR '','' then cons_fst v (parse_elements n r)
               else if c = CHR '']'' then Some ([v], r)
               else None))"
| "parse_members 0 s = None"
| "parse_members (Suc n) s =
     (case skip_ws s of
        [] \<Rightarrow> None
      | c # r \<Rightarrow>
          if c \<noteq> dquote then None
          else
            (case parse_chars r of
               None \<Rightarrow> None
             | Some (k, rest) \<Rightarrow>
                 (case skip_ws rest of
                    [] \<Rightarrow> None
                  | c2 # r2 \<Rightarrow>
                      if c2 \<noteq> CHR '':'' then None
                      else
                        (case parse_value n r2 of
                           None \<Rightarrow> None
                         | Some (v, rest2) \<Rightarrow>
                             (case skip_ws rest2 of
                                [] \<Rightarrow> None
                              | c3 # r3 \<Rightarrow>
                                  if c3 = CHR '','' then cons_fst (k, v) (parse_members n r3)
                                  else if c3 = CHR ''}'' then Some ([(k, v)], r3)
                                  else None)))))"

definition SyntaxError :: "string \<Rightarrow> js_error" where
  "SyntaxError msg = \<lparr>code = None, message = msg\<rparr>"

definition mem_parse :: "string \<Rightarrow> js_error + json" where
  "mem_parse s =
     (if skip_ws s = [] then Inl (SyntaxError ''Unexpected end of JSON input'')
      else
        (case parse_value (Suc (length s)) s of
           None \<Rightarrow> Inl (SyntaxError ''Unexpected token in JSON'')
         | Some (v, rest) \<Rightarrow>
             if skip_ws rest = [] then Inr v else Inl (SyntaxError ''Unexpected token in JSON'')))"

definition mem_platform :: "(memfs, json) platform" where
  "mem_platform =
     \<lparr>dirname = mem_dirname,
      mkdirSync = mem_mkdirSync,
      writeFileSync = mem_writeFileSync,
      readFileSync = mem_readFileSync,
      accessSync = mem_accessSync,
      JSON_stringify = mem_stringify,
      JSON_parse = mem_parse\<rparr>"

text \<open>The nested object of the store's tests, without its time stamp.\<close>

definition complexData :: json where
  "complexData = JObject [
     (''users'', JArray [
        JObject [(''id'', JNumber 1), (''name'', JString ''User One''), (''active'', JBool True)],
        JObject [(''id'', JNumber 2), (''name'', JString ''User Two''), (''active'', JBool False)]]),
     (''metadata'', JObject [
        (''version'', JString ''2.0.1''),
        (''description'', JString ''Test data for complex objects'')]),
     (''status'', JNull)]"

text \<open>
  The items of the tests' large object, a thousand of them, without the random and the
  time-dependent fields.
\<close>

definition largeData :: json where
  "largeData = JObject [(''items'',
     JArray (map (\<lambda>i. JObject [(''id'', JNumber (int i)),
                                  (''name'', JString (''Item '' @ digits i)),
                                  (''tags'', JArray [JString (''tagA-'' @ digits i), JString (''tagB-'' @ digits i)])])
              [0..<1000]))]"

text \<open>
  What may follow a value in a JSON text, and what may follow a number for the number
  to end there.
\<close>

definition value_end :: "string \<Rightarrow> bool" where
  "value_end rest =
     (rest = [] \<or> hd rest = CHR '','' \<or> hd rest = CHR '']'' \<or> hd rest = CHR ''}'' \<or> json_space (hd rest))"

definition number_end :: "string \<Rightarrow> bool" where
  "number_end rest =
     (rest = [] \<or> (\<not> is_digit (hd rest) \<and> hd rest \<noteq> CHR ''.'' \<and> hd rest \<noteq> CHR ''e'' \<and> hd rest \<noteq> CHR ''E''))"

section \<open>Properties of the strings and messages\<close>

lemma sendActivity_inject: "sendActivity c a = sendActivity c b \<longleftrightarrow> a = b"
proof
  assume "sendActivity c a = sendActivity c b"
  then have "sent (sendActivity c a) = sent (sendActivity c b)" by simp
  then show "a = b" by (simp add: sendActivity_def)
qed simp

lemma text_message_inject: "text_message s = text_message t \<longleftrightarrow> s = t"
  by (simp add: text_message_def)

lemma created_neq_required: "notificationCreatedMessage a b \<noteq> requiredFieldsMessage"
  by (simp add: notificationCreatedMessage_def requiredFieldsMessage_def check_mark_def
      cross_mark_def)

lemma not_truthy_iff: "\<not> truthy v \<longleftrightarrow> v = Undefined \<or> v = Null \<or> v = Str []"
  by (cases v) auto

text \<open>
  The byte sequences of the white space: none is empty, none begins or ends another, no
  byte after the first of one is the first byte of one, and \<open>toLowerCase\<close> leaves them as
  they are.
\<close>

lemma white_space_nonempty: "[] \<notin> set white_space"
  by (simp add: white_space_def)

lemma white_space_prefix_free:
  "\<forall>a\<in>set white_space. \<forall>b\<in>set white_space. prefix a b \<longrightarrow> a = b"
  by (simp add: white_space_def)

lemma white_space_suffix_free:
  "\<forall>a\<in>set (map rev white_space). \<forall>b\<in>set (map rev white_space). prefix a b \<longrightarrow> a = b"
  by (simp add: white_space_def)

lemma white_space_bytes:
  "\<forall>w\<in>set white_space. \<forall>q\<in>set white_space. hd q \<notin> set (tl w)"
  by (simp add: white_space_def)

lemma white_space_lower: "\<forall>w\<in>set white_space. map lower_char w = w"
  by (simp add: white_space_def lower_char_def)

lemma strip_elem:
  assumes pf: "\<forall>a\<in>set L. \<forall>b\<in>set L. prefix a b \<longrightarrow> a = b"
    and w: "w \<in> set L"
  shows "strip L (w @ x) = strip L x"
proof (cases "w = []")
  case True
  then show ?thesis by simp
next
  case False
  have "\<exists>w'. find (\<lambda>w'. w' \<noteq> [] \<and> prefix w' (w @ x)) L = Some w'"
    using w False by (cases "find (\<lambda>w'. w' \<noteq> [] \<and> prefix w' (w @ x)) L") (auto simp: find_None_iff)
  then obtain w' where f: "find (\<lambda>w'. w' \<noteq> [] \<and> prefix w' (w @ x)) L = Some w'" by blast
  then have w': "w' \<in> set L" "prefix w' (w @ x)"
    by (auto simp: find_Some_iff)
  have "prefix w w' \<or> prefix w' w"
    using w'(2) prefix_same_cases [of w "w @ x" w'] by auto
  then have "w' = w" using pf w w'(1) by auto
  with f show ?thesis by (subst strip.simps) simp
qed

lemma strip_concat:
  assumes "\<forall>a\<in>set L. \<forall>b\<in>set L. prefix a b \<longrightarrow> a = b" and "set ps \<subseteq> set L"
  shows "strip L (concat ps @ x) = strip L x"
  using assms(2) by (induction ps) (simp_all add: strip_elem [OF assms(1)])

lemma strip_decomp: "\<exists>ps. set ps \<subseteq> set L \<and> s = concat ps @ strip L s"
proof (induction L s rule: strip.induct)
  case (1 ws s)
  show ?case
  proof (cases "find (\<lambda>w. w \<noteq> [] \<and> prefix w s) ws")
    case None
    then have "strip ws s = s" by (subst strip.simps) simp
    then have "set [] \<subseteq> set ws \<and> s = concat [] @ strip ws s" by simp
    then show ?thesis by blast
  next
    case (Some w)
    then have w: "w \<in> set ws" "prefix w s" by (auto simp: find_Some_iff)
    obtain ps where ps: "set ps \<subseteq> set ws" "drop (length w) s = concat ps @ strip ws (drop (length w) s)"
      using 1 [OF Some] by blast
    have "strip ws s = strip ws (drop (length w) s)"
      using Some by (subst strip.simps) simp
    moreover have "s = w @ drop (length w) s"
      using w(2) by (auto simp: prefix_def)
    ultimately have "set (w # ps) \<subseteq> set ws \<and> s = concat (w # ps) @ strip ws s"
      using ps w(1) by simp
    then show ?thesis by blast
  qed
qed

lemma strip_stops: "w \<in> set L \<Longrightarrow> w \<noteq> [] \<Longrightarrow> \<not> prefix w (strip L s)"
proof (induction L s rule: strip.induct)
  case (1 ws s)
  show ?case
  proof (cases "find (\<lambda>w. w \<noteq> [] \<and> prefix w s) ws")
    case None
    then have "strip ws s = s" by (subst strip.simps) simp
    with None 1(2,3) show ?thesis by (auto simp: find_None_iff)
  next
    case (Some w')
    then have "strip ws s = strip ws (drop (length w') s)"
      by (subst strip.simps) simp
    with 1(1) [OF Some 1(2,3)] show ?thesis by simp
  qed
qed

lemma strip_fixed:
  assumes "\<And>w. w \<in> set L \<Longrightarrow> w \<noteq> [] \<Longrightarrow> \<not> prefix w s"
  shows "strip L s = s"
proof -
  have "find (\<lambda>w. w \<noteq> [] \<and> prefix w s) L = None"
    using assms by (auto simp: find_None_iff)
  then show ?thesis by (subst strip.simps) simp
qed

lemma strip_Nil: "strip L [] = []"
  by (rule strip_fixed) simp

text \<open>White space around a text does not change what \<open>trim\<close> returns.\<close>

lemma trimStart_stays:
  assumes m: "m \<noteq> []" "trimStart u = m" and qs: "set qs \<subseteq> set white_space"
  shows "trimStart (m @ concat qs) = m @ concat qs"
  unfolding trimStart_def
proof (rule strip_fixed)
  fix w assume w: "w \<in> set white_space" "w \<noteq> []"
  have nm: "\<not> prefix w m"
    using strip_stops [OF w, of u] m(2) by (simp add: trimStart_def)
  show "\<not> prefix w (m @ concat qs)"
  proof
    assume "prefix w (m @ concat qs)"
    with nm obtain us where us: "w = m @ us" "prefix us (concat qs)"
      by (auto simp: prefix_append)
    with nm have "us \<noteq> []" by auto
    have "qs \<noteq> []"
    proof
      assume "qs = []"
      with us(2) \<open>us \<noteq> []\<close> show False by simp
    qed
    then obtain q qs' where "qs = q # qs'" by (cases qs) auto
    with qs white_space_nonempty have q: "q \<in> set white_space" "q \<noteq> []" "concat qs = q @ concat qs'"
      by auto
    have "hd us = hd q"
      using us(2) \<open>us \<noteq> []\<close> q(2,3) by (cases us; cases q) auto
    moreover have "hd us \<in> set (tl w)"
      using us(1) m(1) \<open>us \<noteq> []\<close> by (cases m) auto
    ultimately show False using white_space_bytes w(1) q(1) by auto
  qed
qed

lemma trim_padding:
  assumes ps: "set ps \<subseteq> set white_space" and qs: "set qs \<subseteq> set white_space"
  shows "trim (concat ps @ u @ concat qs) = trim u"
proof -
  obtain a where a: "set a \<subseteq> set white_space" "u = concat a @ trimStart u"
    using strip_decomp [of white_space u] by (auto simp: trimStart_def)
  have "trimStart (concat ps @ u @ concat qs) = trimStart (u @ concat qs)"
    unfolding trimStart_def by (rule strip_concat [OF white_space_prefix_free ps])
  moreover have "u @ concat qs = concat a @ (trimStart u @ concat qs)"
    using a(2) by simp
  moreover have "trimStart (concat a @ (trimStart u @ concat qs)) = trimStart (trimStart u @ concat qs)"
    unfolding trimStart_def by (rule strip_concat [OF white_space_prefix_free a(1)])
  ultimately have start: "trimStart (concat ps @ u @ concat qs) = trimStart (trimStart u @ concat qs)"
    by (simp only:)
  show ?thesis
  proof (cases "trimStart u = []")
    case True
    have "trimStart (concat qs @ []) = trimStart []"
      unfolding trimStart_def by (rule strip_concat [OF white_space_prefix_free qs])
    then have "trimStart (concat qs) = []" by (simp add: trimStart_def strip_Nil)
    with True start show ?thesis by (simp add: trim_def)
  next
    case False
    have rq: "set (map rev (rev qs)) \<subseteq> set (map rev white_space)" using qs by auto
    have "trimStart (trimStart u @ concat qs) = trimStart u @ concat qs"
      using False qs by (intro trimStart_stays) simp_all
    with start have "trim (concat ps @ u @ concat qs) = trimEnd (trimStart u @ concat qs)"
      by (simp add: trim_def)
    also have "\<dots> = rev (strip (map rev white_space) (concat (map rev (rev qs)) @ rev (trimStart u)))"
      by (simp add: trimEnd_def rev_concat)
    also have "\<dots> = rev (strip (map rev white_space) (rev (trimStart u)))"
      by (simp only: strip_concat [OF white_space_suffix_free rq])
    also have "\<dots> = trim u" by (simp add: trim_def trimEnd_def)
    finally show ?thesis .
  qed
qed

lemma toLowerCase_white_space:
  "set ps \<subseteq> set white_space \<Longrightarrow> toLowerCase (concat ps) = concat ps"
  using white_space_lower by (induction ps) (auto simp: toLowerCase_def)

lemma toLowerCase_padding:
  assumes "set ps \<subseteq> set white_space" and "set qs \<subseteq> set white_space"
  shows "trim (toLowerCase (concat ps @ u @ concat qs)) = trim (toLowerCase u)"
proof -
  have "toLowerCase (concat ps @ u @ concat qs) = concat ps @ toLowerCase u @ concat qs"
    using toLowerCase_white_space [OF assms(1)] toLowerCase_white_space [OF assms(2)]
    by (simp add: toLowerCase_def)
  then show ?thesis by (simp add: trim_padding [OF assms])
qed

lemma trim_commands:
  "trim ''help'' = ''help''" "trim ''configure'' = ''configure''"
  "trim ''prompt'' = ''prompt''" "trim ''cancel'' = ''cancel''"
  by code_simp+

lemma trim_blank: "trim ''   '' = []"
  by code_simp

lemma toLowerCase_literals:
  "toLowerCase ''jiraInformation'' = ''jirainformation''"
  "toLowerCase ''prompt'' = ''prompt''"
  "toLowerCase ''cancelNotification'' = ''cancelnotification''"
  "toLowerCase ''yes'' = ''yes''" "toLowerCase ''no'' = ''no''"
  by code_simp+

section \<open>Properties of InputCardDialog\<close>

text \<open>
  The reply to a submission depends on the payload alone, and it is one message.
\<close>

lemma handleCardSubmission_reply:
  "\<exists>m. \<forall>c. activity_value (activity c) = Some d \<longrightarrow> handleCardSubmission c = Inr (sendActivity c m)"
proof -
  define m where "m =
    (if d ''type'' = Str ''jiraInformation'' then
       (if \<not> truthy (d ''sprintId'') \<or> \<not> truthy (d ''boardId'')
        then text_message requiredFieldsMessage
        else text_message (notificationCreatedMessage (d ''sprintId'') (d ''boardId'')))
     else if d ''type'' = Str ''cancelNotification'' then
       text_message (if d ''choice'' = Str ''yes'' then cancelledMessage
                     else if d ''choice'' = Str ''no'' then notCancelledMessage else [])
     else if d ''type'' = Str ''prompt'' then text_message promptSentMessage
     else text_message thankYouMessage)"
  have "\<forall>c. activity_value (activity c) = Some d \<longrightarrow> handleCardSubmission c = Inr (sendActivity c m)"
    by (simp add: m_def handleCardSubmission_def handleJiraInformationSubmission_def
        handleCancelNotificationSubmission_def handlePromptSubmission_def Let_def)
  then show ?thesis by blast
qed

lemma text_command_one:
  "\<exists>m. (if userMessage c = Some ''help'' then Inr (sendCommandList c)
        else if userMessage c = Some ''configure'' then Inr (sendJiraInformationCard c)
        else if userMessage c = Some ''prompt'' then Inr (sendPromptToAgentCard c)
        else if userMessage c = Some ''cancel'' then Inr (sendCancelNotificationCard c)
        else Inr (sendCommandList c)) = (Inr (sendActivity c m) :: js_error + turn_context)"
  by (auto simp: sendCommandList_def sendJiraInformationCard_def sendPromptToAgentCard_def
      sendCancelNotificationCard_def)

text \<open>
  C1, amended. \<open>handleJiraInformationSubmission\<close> answers with the required-fields message
  if and only if \<open>sprintId\<close> or \<open>boardId\<close> is absent, \<open>null\<close> or the empty string. The
  values are not trimmed: with both of them non-empty strings, blank ones included, it
  answers with the success message, which holds both values as they were submitted.
\<close>

theorem jira_submission_validation:
  "(handleJiraInformationSubmission context data = sendActivity context (text_message requiredFieldsMessage)
      \<longleftrightarrow> (data ''sprintId'' \<in> {Undefined, Null, Str []} \<or> data ''boardId'' \<in> {Undefined, Null, Str []}))
   \<and> (\<forall>s b. data ''sprintId'' = Str s \<and> s \<noteq> [] \<and> data ''boardId'' = Str b \<and> b \<noteq> [] \<longrightarrow>
         handleJiraInformationSubmission context data =
           sendActivity context (text_message
             (check_mark @ '' **Notification Created Successfully!**\<newline>\<newline>'' @
              ''**Sprint ID:** '' @ s @ ''\<newline>'' @ ''**Board ID:** '' @ b @ ''\<newline>'')))"
proof (intro conjI allI impI)
  show "handleJiraInformationSubmission context data = sendActivity context (text_message requiredFieldsMessage)
      \<longleftrightarrow> (data ''sprintId'' \<in> {Undefined, Null, Str []} \<or> data ''boardId'' \<in> {Undefined, Null, Str []})"
    by (auto simp: handleJiraInformationSubmission_def Let_def sendActivity_inject text_message_inject
        created_neq_required not_truthy_iff)
next
  fix s b
  assume "data ''sprintId'' = Str s \<and> s \<noteq> [] \<and> data ''boardId'' = Str b \<and> b \<noteq> []"
  then show "handleJiraInformationSubmission context data =
           sendActivity context (text_message
             (check_mark @ '' **Notification Created Successfully!**\<newline>\<newline>'' @
              ''**Sprint ID:** '' @ s @ ''\<newline>'' @ ''**Board ID:** '' @ b @ ''\<newline>''))"
    by (simp add: handleJiraInformationSubmission_def Let_def notificationCreatedMessage_def)
qed

text \<open>
  The amended statement at the submission with a Sprint ID of three spaces: the success
  message, with the three spaces in it.
\<close>

theorem jira_submission_validation_witness:
  "blank_jira_submission ''sprintId'' = Str ''   '' \<and> ''   '' \<noteq> []
   \<and> blank_jira_submission ''boardId'' = Str ''BOARD-456'' \<and> ''BOARD-456'' \<noteq> []
   \<and> handleJiraInformationSubmission (turn_of None (Some blank_jira_submission)) blank_jira_submission =
     sendActivity (turn_of None (Some blank_jira_submission)) (text_message
       (check_mark @ '' **Notification Created Successfully!**\<newline>\<newline>'' @
        ''**Sprint ID:**    \<newline>'' @ ''**Board ID:** BOARD-456\<newline>''))"
  using jira_submission_validation [of "turn_of None (Some blank_jira_submission)" blank_jira_submission]
  by (simp add: blank_jira_submission_def)

text \<open>
  C1 as it is stated fails at that submission: the Sprint ID is blank after trimming,
  and the answer is not the required-fields message.
\<close>

theorem jira_blank_counterexample:
  "spec_missing_or_blank (blank_jira_submission ''sprintId'') \<and>
   handleJiraInformationSubmission (turn_of None (Some blank_jira_submission)) blank_jira_submission
     \<noteq> sendActivity (turn_of None (Some blank_jira_submission)) (text_message requiredFieldsMessage)"
  by (simp add: blank_jira_submission_def trim_blank handleJiraInformationSubmission_def
      Let_def sendActivity_inject text_message_inject created_neq_required)

text \<open>
  C3. \<open>handleCancelNotificationSubmission\<close> answers a \<open>choice\<close> of \<open>yes\<close> with the message
  that the notification was cancelled, a \<open>choice\<close> of \<open>no\<close> with the message that it was
  not, and any other \<open>choice\<close> with the empty message.
\<close>

theorem cancel_notification_response:
  "(data ''choice'' = Str ''yes'' \<longrightarrow>
      handleCancelNotificationSubmission context data =
        sendActivity context (text_message (check_mark @ '' Notification successfully cancelled.'')))
   \<and> (data ''choice'' = Str ''no'' \<longrightarrow>
      handleCancelNotificationSubmission context data =
        sendActivity context (text_message ''Notification has not been cancelled.''))
   \<and> (data ''choice'' \<noteq> Str ''yes'' \<and> data ''choice'' \<noteq> Str ''no'' \<longrightarrow>
      handleCancelNotificationSubmission context data = sendActivity context (text_message []))"
  by (simp add: handleCancelNotificationSubmission_def cancelledMessage_def notCancelledMessage_def)

theorem cancel_notification_response_witness:
  "sent (handleCancelNotificationSubmission (turn_of None None)
           ((\<lambda>k. Undefined)(''type'' := Str ''cancelNotification'', ''choice'' := Str ''yes'')))
     = [text_message (check_mark @ '' Notification successfully cancelled.'')]
   \<and> sent (handleCancelNotificationSubmission (turn_of None None)
           ((\<lambda>k. Undefined)(''type'' := Str ''cancelNotification'', ''choice'' := Str ''no'')))
     = [text_message ''Notification has not been cancelled.'']
   \<and> sent (handleCancelNotificationSubmission (turn_of None None)
           ((\<lambda>k. Undefined)(''type'' := Str ''cancelNotification'', ''choice'' := Str ''maybe'')))
     = [text_message []]"
  using
    cancel_notification_response [of "(\<lambda>k. Undefined)(''type'' := Str ''cancelNotification'', ''choice'' := Str ''yes'')" "turn_of None None"]
    cancel_notification_response [of "(\<lambda>k. Undefined)(''type'' := Str ''cancelNotification'', ''choice'' := Str ''no'')" "turn_of None None"]
    cancel_notification_response [of "(\<lambda>k. Undefined)(''type'' := Str ''cancelNotification'', ''choice'' := Str ''maybe'')" "turn_of None None"]
  by (simp add: sendActivity_def turn_of_def)

text \<open>
  C4. On a turn without a submission payload the reply is chosen by the text, lower-cased
  and trimmed. With any white space around it and in any letter case, \<open>help\<close> is answered
  with the list of commands, \<open>configure\<close> with the Jira configuration card, \<open>prompt\<close>
  with the prompt card and \<open>cancel\<close> with the cancel card; every other text, the empty and
  the blank one included, is answered with the list of commands, and so is a turn with no
  text at all. The reply is the one message added to the messages sent.
\<close>

theorem text_command_dispatch:
  assumes "activity_value (activity context) = None"
  shows "(activity_text (activity context) = None \<longrightarrow>
            processUserInputStep context =
              Inr (Complete, context\<lparr>sent := sent context @
                [\<lparr>out_text = Some helpMessage, out_attachments = []\<rparr>]\<rparr>))
    \<and> (\<forall>ps u qs.
          activity_text (activity context) = Some (concat ps @ u @ concat qs)
          \<and> set ps \<subseteq> set white_space \<and> set qs \<subseteq> set white_space \<longrightarrow>
            (toLowerCase u = ''help'' \<longrightarrow>
               processUserInputStep context =
                 Inr (Complete, context\<lparr>sent := sent context @
                   [\<lparr>out_text = Some helpMessage, out_attachments = []\<rparr>]\<rparr>))
          \<and> (toLowerCase u = ''configure'' \<longrightarrow>
               processUserInputStep context =
                 Inr (Complete, context\<lparr>sent := sent context @
                   [\<lparr>out_text = None, out_attachments =
                      [\<lparr>contentType = ''application/vnd.microsoft.card.adaptive'',
                        content = jiraInformationCard\<rparr>]\<rparr>]\<rparr>))
          \<and> (toLowerCase u = ''prompt'' \<longrightarrow>
               processUserInputStep context =
                 Inr (Complete, context\<lparr>sent := sent context @
                   [\<lparr>out_text = None, out_attachments =
                      [\<lparr>contentType = ''application/vnd.microsoft.card.adaptive'',
                        content = promptToAgentCard\<rparr>]\<rparr>]\<rparr>))
          \<and> (toLowerCase u = ''cancel'' \<longrightarrow>
               processUserInputStep context =
                 Inr (Complete, context\<lparr>sent := sent context @
                   [\<lparr>out_text = None, out_attachments =
                      [\<lparr>contentType = ''application/vnd.microsoft.card.adaptive'',
                        content = cancelNotificationCard\<rparr>]\<rparr>]\<rparr>))
          \<and> (trim (toLowerCase u) \<notin> {''configure'', ''prompt'', ''cancel''} \<longrightarrow>
               processUserInputStep context =
                 Inr (Complete, context\<lparr>sent := sent context @
                   [\<lparr>out_text = Some helpMessage, out_attachments = []\<rparr>]\<rparr>)))
    \<and> helpMessage =
          robot_face @ '' **Available Commands:**\<newline>\<newline>'' @
          bullet @ '' **Configure** - To setup a notification schedule.\<newline>\<newline>'' @
          bullet @ '' **Prompt** - To make the agent execute a prompt of your choice.\<newline>\<newline>'' @
          bullet @ '' **Cancel** - To cancel a notification schedule.\<newline>\<newline>'' @
          ''Type any command to see the interactive card!''"
proof (intro conjI allI impI)
  assume "activity_text (activity context) = None"
  with assms show "processUserInputStep context =
      Inr (Complete, context\<lparr>sent := sent context @
        [\<lparr>out_text = Some helpMessage, out_attachments = []\<rparr>]\<rparr>)"
    by (simp add: processUserInputStep_def userMessage_def sendCommandList_def sendActivity_def
        text_message_def)
next
  fix ps u qs
  assume h: "activity_text (activity context) = Some (concat ps @ u @ concat qs)
          \<and> set ps \<subseteq> set white_space \<and> set qs \<subseteq> set white_space"
  then have um: "userMessage context = Some (trim (toLowerCase u))"
    by (simp add: userMessage_def toLowerCase_padding)
  { assume "toLowerCase u = ''help''"
    with um assms show "processUserInputStep context =
        Inr (Complete, context\<lparr>sent := sent context @
          [\<lparr>out_text = Some helpMessage, out_attachments = []\<rparr>]\<rparr>)"
      by (simp add: processUserInputStep_def trim_commands sendCommandList_def sendActivity_def
          text_message_def) }
  { assume "toLowerCase u = ''configure''"
    with um assms show "processUserInputStep context =
        Inr (Complete, context\<lparr>sent := sent context @
          [\<lparr>out_text = None, out_attachments =
             [\<lparr>contentType = ''application/vnd.microsoft.card.adaptive'',
               content = jiraInformationCard\<rparr>]\<rparr>]\<rparr>)"
      by (simp add: processUserInputStep_def trim_commands sendJiraInformationCard_def
          sendActivity_def attachment_message_def adaptiveCard_def) }
  { assume "toLowerCase u = ''prompt''"
    with um assms show "processUserInputStep context =
        Inr (Complete, context\<lparr>sent := sent context @
          [\<lparr>out_text = None, out_attachments =
             [\<lparr>contentType = ''application/vnd.microsoft.card.adaptive'',
               content = promptToAgentCard\<rparr>]\<rparr>]\<rparr>)"
      by (simp add: processUserInputStep_def trim_commands sendPromptToAgentCard_def
          sendActivity_def attachment_message_def adaptiveCard_def) }
  { assume "toLowerCase u = ''cancel''"
    with um assms show "processUserInputStep context =
        Inr (Complete, context\<lparr>sent := sent context @
          [\<lparr>out_text = None, out_attachments =
             [\<lparr>contentType = ''application/vnd.microsoft.card.adaptive'',
               content = cancelNotificationCard\<rparr>]\<rparr>]\<rparr>)"
      by (simp add: processUserInputStep_def trim_commands sendCancelNotificationCard_def
          sendActivity_def attachment_message_def adaptiveCard_def) }
  { assume "trim (toLowerCase u) \<notin> {''configure'', ''prompt'', ''cancel''}"
    with um assms show "processUserInputStep context =
        Inr (Complete, context\<lparr>sent := sent context @
          [\<lparr>out_text = Some helpMessage, out_attachments = []\<rparr>]\<rparr>)"
      by (simp add: processUserInputStep_def sendCommandList_def sendActivity_def
          text_message_def) }
next
  show "helpMessage =
          robot_face @ '' **Available Commands:**\<newline>\<newline>'' @
          bullet @ '' **Configure** - To setup a notification schedule.\<newline>\<newline>'' @
          bullet @ '' **Prompt** - To make the agent execute a prompt of your choice.\<newline>\<newline>'' @
          bullet @ '' **Cancel** - To cancel a notification schedule.\<newline>\<newline>'' @
          ''Type any command to see the interactive card!''"
    by (simp add: helpMessage_def)
qed

text \<open>
  Five turns: \<open>CONFigure\<close> between a no-break space and blanks, \<open>Prompt\<close>, \<open>CANCEL\<close>
  before a line feed, \<open>HELP\<close>, and a text that is no command.
\<close>

theorem text_command_dispatch_witness:
  "set [[CHR 0xC2, CHR 0xA0], '' ''] \<subseteq> set white_space \<and> set ['' '', '' ''] \<subseteq> set white_space
   \<and> toLowerCase ''CONFigure'' = ''configure''
   \<and> sent (snd (projr (processUserInputStep
        (turn_of (Some (concat [[CHR 0xC2, CHR 0xA0], '' ''] @ ''CONFigure'' @ concat ['' '', '' ''])) None))))
       = [attachment_message (adaptiveCard jiraInformationCard)]
   \<and> sent (snd (projr (processUserInputStep (turn_of (Some ''Prompt'') None))))
       = [attachment_message (adaptiveCard promptToAgentCard)]
   \<and> sent (snd (projr (processUserInputStep (turn_of (Some (''CANCEL'' @ concat [''\<newline>''])) None))))
       = [attachment_message (adaptiveCard cancelNotificationCard)]
   \<and> sent (snd (projr (processUserInputStep (turn_of (Some ''HELP'') None))))
       = [text_message helpMessage]
   \<and> trim (toLowerCase ''random text'') \<notin> {''configure'', ''prompt'', ''cancel''}
   \<and> sent (snd (projr (processUserInputStep (turn_of (Some ''random text'') None))))
       = [text_message helpMessage]"
proof -
  have ws: "set [[CHR 0xC2, CHR 0xA0], '' ''] \<subseteq> set white_space" "set ['' '', '' ''] \<subseteq> set white_space"
    "set [''\<newline>''] \<subseteq> set white_space" "set ([] :: string list) \<subseteq> set white_space"
    by (simp_all add: white_space_def)
  have lc: "toLowerCase ''CONFigure'' = ''configure''" "toLowerCase ''Prompt'' = ''prompt''"
    "toLowerCase ''CANCEL'' = ''cancel''" "toLowerCase ''HELP'' = ''help''"
    by code_simp+
  have other: "trim (toLowerCase ''random text'') \<notin> {''configure'', ''prompt'', ''cancel''}"
    by code_simp
  have none: "activity_value (activity (turn_of (Some t) None)) = None" for t
    by (simp add: turn_of_def)
  have given: "activity_text (activity (turn_of (Some t) None)) = Some t" for t
    by (simp add: turn_of_def)
  have "processUserInputStep (turn_of (Some (concat [[CHR 0xC2, CHR 0xA0], '' ''] @ ''CONFigure'' @ concat ['' '', '' ''])) None)
      = Inr (Complete, (turn_of (Some (concat [[CHR 0xC2, CHR 0xA0], '' ''] @ ''CONFigure'' @ concat ['' '', '' ''])) None)
          \<lparr>sent := sent (turn_of (Some (concat [[CHR 0xC2, CHR 0xA0], '' ''] @ ''CONFigure'' @ concat ['' '', '' ''])) None) @
            [\<lparr>out_text = None, out_attachments = [\<lparr>contentType = ''application/vnd.microsoft.card.adaptive'', content = jiraInformationCard\<rparr>]\<rparr>]\<rparr>)"
    using text_command_dispatch [OF none [of "concat [[CHR 0xC2, CHR 0xA0], '' ''] @ ''CONFigure'' @ concat ['' '', '' '']"]] given [of "concat [[CHR 0xC2, CHR 0xA0], '' ''] @ ''CONFigure'' @ concat ['' '', '' '']"] ws(1) ws(2) lc(1)
    by blast
  then have r1: "sent (snd (projr (processUserInputStep (turn_of (Some (concat [[CHR 0xC2, CHR 0xA0], '' ''] @ ''CONFigure'' @ concat ['' '', '' ''])) None))))
       = [attachment_message (adaptiveCard jiraInformationCard)]"
    by (simp add: turn_of_def text_message_def attachment_message_def adaptiveCard_def)
  have "processUserInputStep (turn_of (Some (concat [] @ ''Prompt'' @ concat [])) None)
      = Inr (Complete, (turn_of (Some (concat [] @ ''Prompt'' @ concat [])) None)
          \<lparr>sent := sent (turn_of (Some (concat [] @ ''Prompt'' @ concat [])) None) @
            [\<lparr>out_text = None, out_attachments = [\<lparr>contentType = ''application/vnd.microsoft.card.adaptive'', content = promptToAgentCard\<rparr>]\<rparr>]\<rparr>)"
    using text_command_dispatch [OF none [of "concat [] @ ''Prompt'' @ concat []"]] given [of "concat [] @ ''Prompt'' @ concat []"] ws(4) ws(4) lc(2)
    by blast
  then have r2: "sent (snd (projr (processUserInputStep (turn_of (Some ''Prompt'') None))))
       = [attachment_message (adaptiveCard promptToAgentCard)]"
    by (simp add: turn_of_def text_message_def attachment_message_def adaptiveCard_def)
  have "processUserInputStep (turn_of (Some (concat [] @ ''CANCEL'' @ concat [''\<newline>''])) None)
      = Inr (Complete, (turn_of (Some (concat [] @ ''CANCEL'' @ concat [''\<newline>''])) None)
          \<lparr>sent := sent (turn_of (Some (concat [] @ ''CANCEL'' @ concat [''\<newline>''])) None) @
            [\<lparr>out_text = None, out_attachments = [\<lparr>contentType = ''application/vnd.microsoft.card.adaptive'', content = cancelNotificationCard\<rparr>]\<rparr>]\<rparr>)"
    using text_command_dispatch [OF none [of "concat [] @ ''CANCEL'' @ concat [''\<newline>'']"]] given [of "concat [] @ ''CANCEL'' @ concat [''\<newline>'']"] ws(4) ws(3) lc(3)
    by blast
  then have r3: "sent (snd (projr (processUserInputStep (turn_of (Some (''CANCEL'' @ concat [''\<newline>''])) None))))
       = [attachment_message (adaptiveCard cancelNotificationCard)]"
    by (simp add: turn_of_def text_message_def attachment_message_def adaptiveCard_def)
  have "processUserInputStep (turn_of (Some (concat [] @ ''HELP'' @ concat [])) None)
      = Inr (Complete, (turn_of (Some (concat [] @ ''HELP'' @ concat [])) None)
          \<lparr>sent := sent (turn_of (Some (concat [] @ ''HELP'' @ concat [])) None) @
            [\<lparr>out_text = Some helpMessage, out_attachments = []\<rparr>]\<rparr>)"
    using text_command_dispatch [OF none [of "concat [] @ ''HELP'' @ concat []"]] given [of "concat [] @ ''HELP'' @ concat []"] ws(4) ws(4) lc(4)
    by blast
  then have r4: "sent (snd (projr (processUserInputStep (turn_of (Some ''HELP'') None))))
       = [text_message helpMessage]"
    by (simp add: turn_of_def text_message_def attachment_message_def adaptiveCard_def)
  have "processUserInputStep (turn_of (Some (concat [] @ ''random text'' @ concat [])) None)
      = Inr (Complete, (turn_of (Some (concat [] @ ''random text'' @ concat [])) None)
          \<lparr>sent := sent (turn_of (Some (concat [] @ ''random text'' @ concat [])) None) @
            [\<lparr>out_text = Some helpMessage, out_attachments = []\<rparr>]\<rparr>)"
    using text_command_dispatch [OF none [of "concat [] @ ''random text'' @ concat []"]] given [of "concat [] @ ''random text'' @ concat []"] ws(4) ws(4) other
    by blast
  then have r5: "sent (snd (projr (processUserInputStep (turn_of (Some ''random text'') None))))
       = [text_message helpMessage]"
    by (simp add: turn_of_def text_message_def attachment_message_def adaptiveCard_def)
  from ws(1,2) lc(1) other r1 r2 r3 r4 r5 show ?thesis by simp
qed

text \<open>
  C6. A submission whose \<open>type\<close> is none of \<open>jiraInformation\<close>, \<open>prompt\<close> and
  \<open>cancelNotification\<close> is answered with exactly the text
  \<open>Thank you for your submission!\<close>.
\<close>

theorem unknown_type_acknowledged:
  assumes "activity_value (activity context) = Some data"
    and "data ''type'' \<noteq> Str ''jiraInformation''"
    and "data ''type'' \<noteq> Str ''prompt''"
    and "data ''type'' \<noteq> Str ''cancelNotification''"
  shows "handleCardSubmission context =
           Inr (context\<lparr>sent := sent context @
             [\<lparr>out_text = Some ''Thank you for your submission!'', out_attachments = []\<rparr>]\<rparr>)"
  using assms
  by (simp add: handleCardSubmission_def Let_def sendActivity_def text_message_def thankYouMessage_def)

theorem unknown_type_acknowledged_witness:
  "sent (projr (handleCardSubmission (turn_of None
      (Some ((\<lambda>k. Undefined)(''type'' := Str ''unknownType'', ''someData'' := Str ''test''))))))
    = [\<lparr>out_text = Some ''Thank you for your submission!'', out_attachments = []\<rparr>]"
  using unknown_type_acknowledged [of
      "turn_of None (Some ((\<lambda>k. Undefined)(''type'' := Str ''unknownType'', ''someData'' := Str ''test'')))"
      "(\<lambda>k. Undefined)(''type'' := Str ''unknownType'', ''someData'' := Str ''test'')"]
  by (simp add: turn_of_def)

text \<open>
  C7. On a turn that carries a submission payload the step does what
  \<open>handleCardSubmission\<close> does and nothing else: whatever the text of the turn is, the one
  message sent is the reply to the payload.
\<close>

theorem payload_takes_precedence:
  assumes "activity_value (activity context) = Some data"
  shows "\<exists>m. handleCardSubmission context = Inr (sendActivity context m)
    \<and> (\<forall>t. processUserInputStep (context\<lparr>activity := (activity context)\<lparr>activity_text := t\<rparr>\<rparr>)
          = Inr (Complete, context\<lparr>activity := (activity context)\<lparr>activity_text := t\<rparr>,
                                    sent := sent context @ [m]\<rparr>))"
proof -
  obtain m where m: "\<forall>c. activity_value (activity c) = Some data \<longrightarrow>
      handleCardSubmission c = Inr (sendActivity c m)"
    using handleCardSubmission_reply by blast
  have 1: "handleCardSubmission context = Inr (sendActivity context m)"
    using m assms by blast
  have 2: "processUserInputStep (context\<lparr>activity := (activity context)\<lparr>activity_text := t\<rparr>\<rparr>)
          = Inr (Complete, context\<lparr>activity := (activity context)\<lparr>activity_text := t\<rparr>,
                                    sent := sent context @ [m]\<rparr>)" for t
  proof -
    have "activity_value (activity (context\<lparr>activity := (activity context)\<lparr>activity_text := t\<rparr>\<rparr>)) = Some data"
      using assms by simp
    with m have "handleCardSubmission (context\<lparr>activity := (activity context)\<lparr>activity_text := t\<rparr>\<rparr>)
        = Inr (sendActivity (context\<lparr>activity := (activity context)\<lparr>activity_text := t\<rparr>\<rparr>) m)"
      by blast
    with assms show ?thesis
      by (simp add: processUserInputStep_def sendActivity_def)
  qed
  from 1 2 show ?thesis by blast
qed

theorem payload_takes_precedence_witness:
  "processUserInputStep (turn_of (Some ''configure'')
      (Some ((\<lambda>k. Undefined)(''type'' := Str ''prompt'', ''prompt'' := Str ''Test prompt for the agent''))))
   = Inr (Complete,
       \<lparr>activity = \<lparr>activity_text = Some ''configure'',
                    activity_value = Some ((\<lambda>k. Undefined)(''type'' := Str ''prompt'',
                                             ''prompt'' := Str ''Test prompt for the agent''))\<rparr>,
        sent = [text_message promptSentMessage]\<rparr>)"
proof -
  let ?d = "(\<lambda>k. Undefined)(''type'' := Str ''prompt'', ''prompt'' := Str ''Test prompt for the agent'')"
  have a: "activity_value (activity (turn_of None (Some ?d))) = Some ?d"
    by (simp add: turn_of_def)
  have b: "handleCardSubmission (turn_of None (Some ?d))
      = Inr (sendActivity (turn_of None (Some ?d)) (text_message promptSentMessage))"
    by (simp add: handleCardSubmission_def handlePromptSubmission_def turn_of_def)
  from payload_takes_precedence [OF a] b
  have "processUserInputStep ((turn_of None (Some ?d))
          \<lparr>activity := (activity (turn_of None (Some ?d)))\<lparr>activity_text := Some ''configure''\<rparr>\<rparr>)
      = Inr (Complete, (turn_of None (Some ?d))
          \<lparr>activity := (activity (turn_of None (Some ?d)))\<lparr>activity_text := Some ''configure''\<rparr>,
            sent := sent (turn_of None (Some ?d)) @ [text_message promptSentMessage]\<rparr>)"
    by (auto simp: sendActivity_inject)
  then show ?thesis by (simp add: turn_of_def)
qed

text \<open>
  C9. Every turn, with a text or with a payload, returns without an error, ends the
  dialog and leaves the context as it was but for one more outgoing message.
\<close>

theorem one_message_per_turn:
  "\<exists>m. processUserInputStep context = Inr (Complete, context\<lparr>sent := sent context @ [m]\<rparr>)"
proof (cases "activity_value (activity context)")
  case None
  obtain m where
    "(if userMessage context = Some ''help'' then Inr (sendCommandList context)
      else if userMessage context = Some ''configure'' then Inr (sendJiraInformationCard context)
      else if userMessage context = Some ''prompt'' then Inr (sendPromptToAgentCard context)
      else if userMessage context = Some ''cancel'' then Inr (sendCancelNotificationCard context)
      else Inr (sendCommandList context)) = (Inr (sendActivity context m) :: js_error + turn_context)"
    using text_command_one [of "context"] by blast
  with None have "processUserInputStep context = Inr (Complete, sendActivity context m)"
    by (simp add: processUserInputStep_def)
  then show ?thesis unfolding sendActivity_def by blast
next
  case (Some d)
  obtain m where "handleCardSubmission context = Inr (sendActivity context m)"
    using handleCardSubmission_reply Some by blast
  with Some have "processUserInputStep context = Inr (Complete, sendActivity context m)"
    by (simp add: processUserInputStep_def)
  then show ?thesis unfolding sendActivity_def by blast
qed

text \<open>
  C10. The \<open>type\<close> and the \<open>choice\<close> of a submission are compared as they are: a \<open>type\<close>
  that differs from \<open>jiraInformation\<close>, \<open>prompt\<close> or \<open>cancelNotification\<close> in letter case
  only is answered with the generic acknowledgement, and a \<open>choice\<close> that differs from
  \<open>yes\<close> or \<open>no\<close> in letter case only with the empty message; a text command in any
  letter case gives its card.
\<close>

theorem submission_dispatch_is_exact:
  "(\<forall>s k. activity_value (activity context) = Some data \<and> data ''type'' = Str s
          \<and> k \<in> {''jiraInformation'', ''prompt'', ''cancelNotification''}
          \<and> toLowerCase s = toLowerCase k \<and> s \<noteq> k \<longrightarrow>
        handleCardSubmission context =
          Inr (sendActivity context (text_message ''Thank you for your submission!'')))
   \<and> (\<forall>c k. activity_value (activity context) = Some data \<and> data ''type'' = Str ''cancelNotification''
          \<and> data ''choice'' = Str c \<and> k \<in> {''yes'', ''no''} \<and> toLowerCase c = toLowerCase k \<and> c \<noteq> k \<longrightarrow>
        handleCardSubmission context = Inr (sendActivity context (text_message [])))
   \<and> (\<forall>t. activity_value (activity context) = None \<and> activity_text (activity context) = Some t \<longrightarrow>
        (toLowerCase t = ''configure'' \<longrightarrow>
           processUserInputStep context = Inr (Complete, sendJiraInformationCard context))
        \<and> (toLowerCase t = ''prompt'' \<longrightarrow>
           processUserInputStep context = Inr (Complete, sendPromptToAgentCard context))
        \<and> (toLowerCase t = ''cancel'' \<longrightarrow>
           processUserInputStep context = Inr (Complete, sendCancelNotificationCard context)))"
proof (intro conjI allI impI)
  fix s k
  assume h: "activity_value (activity context) = Some data \<and> data ''type'' = Str s
          \<and> k \<in> {''jiraInformation'', ''prompt'', ''cancelNotification''}
          \<and> toLowerCase s = toLowerCase k \<and> s \<noteq> k"
  then have "s \<noteq> ''jiraInformation'' \<and> s \<noteq> ''prompt'' \<and> s \<noteq> ''cancelNotification''"
    using toLowerCase_literals by auto
  with h show "handleCardSubmission context =
          Inr (sendActivity context (text_message ''Thank you for your submission!''))"
    by (simp add: handleCardSubmission_def Let_def thankYouMessage_def)
next
  fix c k
  assume h: "activity_value (activity context) = Some data \<and> data ''type'' = Str ''cancelNotification''
          \<and> data ''choice'' = Str c \<and> k \<in> {''yes'', ''no''} \<and> toLowerCase c = toLowerCase k \<and> c \<noteq> k"
  then have "c \<noteq> ''yes'' \<and> c \<noteq> ''no''"
    using toLowerCase_literals by auto
  with h show "handleCardSubmission context = Inr (sendActivity context (text_message []))"
    by (simp add: handleCardSubmission_def Let_def handleCancelNotificationSubmission_def)
next
  fix t
  assume h: "activity_value (activity context) = None \<and> activity_text (activity context) = Some t"
  { assume "toLowerCase t = ''configure''"
    with h show "processUserInputStep context = Inr (Complete, sendJiraInformationCard context)"
      by (simp add: processUserInputStep_def userMessage_def trim_commands) }
  { assume "toLowerCase t = ''prompt''"
    with h show "processUserInputStep context = Inr (Complete, sendPromptToAgentCard context)"
      by (simp add: processUserInputStep_def userMessage_def trim_commands) }
  { assume "toLowerCase t = ''cancel''"
    with h show "processUserInputStep context = Inr (Complete, sendCancelNotificationCard context)"
      by (simp add: processUserInputStep_def userMessage_def trim_commands) }
qed

theorem submission_dispatch_is_exact_witness:
  "toLowerCase ''JiraInformation'' = toLowerCase ''jiraInformation''
   \<and> ''JiraInformation'' \<noteq> ''jiraInformation''
   \<and> handleCardSubmission (turn_of None (Some ((\<lambda>k. Undefined)(''type'' := Str ''JiraInformation'',
        ''sprintId'' := Str ''SPRINT-123'', ''boardId'' := Str ''BOARD-456''))))
     = Inr (sendActivity (turn_of None (Some ((\<lambda>k. Undefined)(''type'' := Str ''JiraInformation'',
        ''sprintId'' := Str ''SPRINT-123'', ''boardId'' := Str ''BOARD-456''))))
          (text_message ''Thank you for your submission!''))"
proof -
  let ?d = "(\<lambda>k. Undefined)(''type'' := Str ''JiraInformation'',
        ''sprintId'' := Str ''SPRINT-123'', ''boardId'' := Str ''BOARD-456'')"
  have a: "toLowerCase ''JiraInformation'' = toLowerCase ''jiraInformation''"
    by code_simp
  have b: "''JiraInformation'' \<noteq> ''jiraInformation''" by simp
  have c: "activity_value (activity (turn_of None (Some ?d))) = Some ?d \<and> ?d ''type'' = Str ''JiraInformation''
      \<and> ''jiraInformation'' \<in> {''jiraInformation'', ''prompt'', ''cancelNotification''}"
    by (simp add: turn_of_def)
  from submission_dispatch_is_exact [of "turn_of None (Some ?d)" ?d] a b c
  have "handleCardSubmission (turn_of None (Some ?d))
      = Inr (sendActivity (turn_of None (Some ?d)) (text_message ''Thank you for your submission!''))"
    by blast
  with a b show ?thesis by simp
qed

section \<open>The JSON text of a document parses back to the document\<close>

text \<open>
  On the in-memory platform every document is serializable at every indentation: the
  parser reads the text of \<open>serialize\<close> back to the document it was made from.
\<close>

lemma digit_char_is_digit: "d < 10 \<Longrightarrow> is_digit (digit_char d)"
  by (simp add: is_digit_def digit_char_def of_char_of)

lemma digit_char_value: "d < 10 \<Longrightarrow> (of_char (digit_char d) :: nat) - 48 = d"
  by (simp add: digit_char_def of_char_of)

lemma digits_not_Nil: "digits n \<noteq> []"
  by (subst digits.simps) simp

lemma digits_all: "list_all is_digit (digits n)"
proof (induction n rule: digits.induct)
  case (1 n)
  show ?case
    by (subst digits.simps) (use 1 in \<open>simp add: digit_char_is_digit\<close>)
qed

lemma digits_value: "foldl (\<lambda>a d. 10 * a + ((of_char d :: nat) - 48)) 0 (digits n) = n"
proof (induction n rule: digits.induct)
  case (1 n)
  show ?case
    by (subst digits.simps) (use 1 in \<open>simp add: digit_char_value\<close>)
qed

lemma digits_hd: "length (digits n) > 1 \<Longrightarrow> hd (digits n) \<noteq> CHR ''0''"
proof (induction n rule: digits.induct)
  case (1 n)
  show ?case
  proof (cases "n < 10")
    case True
    with 1(2) show ?thesis by (subst (asm) digits.simps) simp
  next
    case False
    show ?thesis
    proof (cases "n div 10 < 10")
      case True
      with False have "digits n = [digit_char (n div 10), digit_char (n mod 10)]"
        by (subst digits.simps, subst digits.simps) simp
      moreover have "0 < n div 10" using False by simp
      moreover have "digit_char (n div 10) \<noteq> CHR ''0''"
      proof
        assume "digit_char (n div 10) = CHR ''0''"
        then have "(of_char (digit_char (n div 10)) :: nat) = of_char CHR ''0''" by simp
        with True \<open>0 < n div 10\<close> show False
          by (simp add: digit_char_def of_char_of)
      qed
      ultimately show ?thesis by simp
    next
      case F2: False
      then have "length (digits (n div 10)) > 1"
        by (subst digits.simps) (simp add: digits_not_Nil Suc_lessI)
      with 1(1) False have "hd (digits (n div 10)) \<noteq> CHR ''0''" by simp
      then show ?thesis using False
        by (subst digits.simps) (simp add: digits_not_Nil)
    qed
  qed
qed

lemma is_digit_not_minus: "is_digit c \<Longrightarrow> c \<noteq> CHR ''-''"
  by (auto simp: is_digit_def)

lemma takeWhile_digits:
  assumes "rest = [] \<or> \<not> is_digit (hd rest)"
  shows "takeWhile is_digit (digits n @ rest) = digits n"
    and "dropWhile is_digit (digits n @ rest) = rest"
proof -
  have all: "\<forall>x\<in>set (digits n). is_digit x"
    using digits_all [of n] by (simp add: list_all_iff)
  show "takeWhile is_digit (digits n @ rest) = digits n"
  proof (cases rest)
    case Nil then show ?thesis using all by simp
  next
    case (Cons r rs)
    with assms all show ?thesis by (simp add: takeWhile_append2)
  qed
  show "dropWhile is_digit (digits n @ rest) = rest"
  proof (cases rest)
    case Nil then show ?thesis using all by simp
  next
    case (Cons r rs)
    with assms all show ?thesis by (simp add: dropWhile_append2)
  qed
qed

lemma parse_number_digits:
  assumes "number_end rest"
  shows "parse_number (digits n @ rest) = Some (JNumber (int n), rest)"
proof -
  have r: "rest = [] \<or> \<not> is_digit (hd rest)" using assms by (auto simp: number_end_def)
  have hd: "hd (digits n @ rest) \<noteq> CHR ''-''"
    using digits_all [of n] digits_not_Nil [of n]
    by (cases "digits n") (auto simp: is_digit_not_minus)
  have lead: "\<not> (length (digits n) > 1 \<and> hd (digits n) = CHR ''0'')"
    using digits_hd by blast
  show ?thesis
    using assms hd lead
    by (auto simp: parse_number_def Let_def takeWhile_digits [OF r] digits_value digits_not_Nil number_end_def)
qed

lemma parse_number_text:
  assumes "number_end rest"
  shows "parse_number (number_text i @ rest) = Some (JNumber i, rest)"
proof (cases "i < 0")
  case True
  have r: "rest = [] \<or> \<not> is_digit (hd rest)" using assms by (auto simp: number_end_def)
  have lead: "\<not> (length (digits (nat (- i))) > 1 \<and> hd (digits (nat (- i))) = CHR ''0'')"
    using digits_hd by blast
  show ?thesis
    using True assms lead
    by (auto simp: parse_number_def number_text_def Let_def takeWhile_digits [OF r] digits_value
        digits_not_Nil number_end_def)
next
  case False
  then show ?thesis
    using parse_number_digits [OF assms, of "nat i"] by (simp add: number_text_def)
qed

lemma hex_value_digit_char: "d < 16 \<Longrightarrow> hex_value (digit_char d) = Some d"
  by (auto simp: hex_value_def digit_char_def of_char_of Let_def)

lemma hex_value_zero: "hex_value CHR ''0'' = Some 0"
  by (simp add: hex_value_def)

lemma char_facts:
  "backslash \<noteq> dquote" "CHR ''u'' \<noteq> dquote" "CHR ''u'' \<noteq> backslash"
  "unescape dquote = Some dquote" "unescape backslash = Some backslash"
  "unescape CHR ''b'' = Some (char_of (8::nat))" "unescape CHR ''t'' = Some (char_of (9::nat))"
  "unescape CHR ''n'' = Some (char_of (10::nat))" "unescape CHR ''f'' = Some (char_of (12::nat))"
  "unescape CHR ''r'' = Some (char_of (13::nat))"
  "CHR ''b'' \<noteq> CHR ''u''" "CHR ''t'' \<noteq> CHR ''u''" "CHR ''n'' \<noteq> CHR ''u''"
  "CHR ''f'' \<noteq> CHR ''u''" "CHR ''r'' \<noteq> CHR ''u''" "dquote \<noteq> CHR ''u''" "backslash \<noteq> CHR ''u''"
  "(of_char dquote :: nat) = 34" "(of_char backslash :: nat) = 92"
  by code_simp+

lemma char_of_of_char_eq: "(of_char c :: nat) = n \<Longrightarrow> c = char_of n"
  by auto

lemma parse_chars_escape:
  "parse_chars (escape_char c @ tail) = cons_fst c (parse_chars tail)"
proof -
  consider (b) "(of_char c :: nat) = 8" | (t) "(of_char c :: nat) = 9" | (n) "(of_char c :: nat) = 10"
    | (f) "(of_char c :: nat) = 12" | (r) "(of_char c :: nat) = 13"
    | (q) "c = dquote" | (s) "c = backslash"
    | (u) "(of_char c :: nat) < 32" "(of_char c :: nat) \<notin> {8, 9, 10, 12, 13}"
    | (p) "(of_char c :: nat) \<ge> 32" "c \<noteq> dquote" "c \<noteq> backslash"
    by fastforce
  then show ?thesis
  proof cases
    case b
    then have "c = char_of (8::nat)" by (rule char_of_of_char_eq)
    with b show ?thesis by (simp add: escape_char_def Let_def char_facts)
  next
    case t
    then have "c = char_of (9::nat)" by (rule char_of_of_char_eq)
    with t show ?thesis by (simp add: escape_char_def Let_def char_facts)
  next
    case n
    then have "c = char_of (10::nat)" by (rule char_of_of_char_eq)
    with n show ?thesis by (simp add: escape_char_def Let_def char_facts)
  next
    case f
    then have "c = char_of (12::nat)" by (rule char_of_of_char_eq)
    with f show ?thesis by (simp add: escape_char_def Let_def char_facts)
  next
    case r
    then have "c = char_of (13::nat)" by (rule char_of_of_char_eq)
    with r show ?thesis by (simp add: escape_char_def Let_def char_facts)
  next
    case q
    then show ?thesis by (simp add: escape_char_def Let_def char_facts)
  next
    case s
    then show ?thesis by (simp add: escape_char_def Let_def char_facts)
  next
    case u
    have ne: "c \<noteq> dquote" "c \<noteq> backslash"
      using u(1) char_facts(18,19) by auto
    have esc: "escape_char c = [backslash, CHR ''u'', CHR ''0'', CHR ''0'',
        digit_char (of_char c div 16), digit_char (of_char c mod 16)]"
      using u ne by (simp add: escape_char_def Let_def)
    have "of_char c div 16 < (8::nat)" using u(1) by simp
    moreover have "char_of (16 * ((of_char c :: nat) div 16) + of_char c mod 16) = c" by simp
    ultimately show ?thesis
      by (simp add: esc char_facts hex_value_digit_char hex_value_zero)
  next
    case p
    then show ?thesis by (simp add: escape_char_def Let_def)
  qed
qed

lemma parse_chars_quoted:
  "parse_chars (concat (map escape_char s) @ dquote # rest) = Some (s, rest)"
  by (induction s) (simp_all add: parse_chars_escape cons_fst_def)

lemma skip_ws_pad:
  "list_all json_space w \<Longrightarrow> \<not> json_space c \<Longrightarrow> skip_ws (w @ c # cs) = c # cs"
  by (simp add: skip_ws_def list_all_iff dropWhile_append2)

lemma space_facts:
  "\<not> json_space CHR ''[''" "\<not> json_space CHR '']''" "\<not> json_space CHR ''{''" "\<not> json_space CHR ''}''"
  "\<not> json_space CHR '',''" "\<not> json_space CHR '':''" "\<not> json_space dquote"
  "\<not> json_space CHR ''n''" "\<not> json_space CHR ''t''" "\<not> json_space CHR ''f''" "\<not> json_space CHR ''-''"
  "json_space CHR '' ''" "json_space CHR ''\<newline>''"
  "dquote \<noteq> CHR ''{''" "dquote \<noteq> CHR ''[''" "dquote \<noteq> CHR '']''" "dquote \<noteq> CHR ''}''"
  "CHR ''n'' \<noteq> dquote" "CHR ''t'' \<noteq> dquote" "CHR ''f'' \<noteq> dquote" "CHR ''-'' \<noteq> dquote"
  by code_simp+

lemma is_digit_facts:
  assumes "is_digit c"
  shows "\<not> json_space c" "c \<noteq> CHR ''{''" "c \<noteq> CHR ''[''" "c \<noteq> dquote" "c \<noteq> CHR ''n''"
    "c \<noteq> CHR ''t''" "c \<noteq> CHR ''f''" "c \<noteq> CHR '']''" "c \<noteq> CHR ''}''"
  using assms char_facts(18) by (auto simp: is_digit_def json_space_def)

lemma number_text_start:
  "\<exists>c cs. number_text i = c # cs \<and> (is_digit c \<or> c = CHR ''-'')"
proof (cases "i < 0")
  case True
  then show ?thesis by (simp add: number_text_def)
next
  case False
  obtain c cs where "digits (nat i) = c # cs"
    using digits_not_Nil by (cases "digits (nat i)") auto
  moreover from this have "is_digit c"
    using digits_all [of "nat i"] by simp
  ultimately show ?thesis using False by (simp add: number_text_def)
qed

lemma parse_value_number:
  assumes "list_all json_space ws" and "is_digit c \<or> c = CHR ''-''"
  shows "parse_value (Suc n) (ws @ c # r) = parse_number (c # r)"
proof -
  have ns: "\<not> json_space c" using assms(2) is_digit_facts(1) space_facts(11) by blast
  have sk: "skip_ws (ws @ c # r) = c # r"
    using assms(1) ns by (rule skip_ws_pad)
  have "c \<noteq> CHR ''{''" "c \<noteq> CHR ''[''" "c \<noteq> dquote" "c \<noteq> CHR ''n''" "c \<noteq> CHR ''t''" "c \<noteq> CHR ''f''"
    using assms(2) is_digit_facts [of c] space_facts(21) by auto
  then show ?thesis by (simp add: sk)
qed

lemma value_end_number_end: "value_end rest \<Longrightarrow> number_end rest"
  by (auto simp: value_end_def number_end_def is_digit_def json_space_def)

lemma serialize_start:
  "\<exists>c cs. serialize gap ind v = c # cs \<and> \<not> json_space c \<and> c \<noteq> CHR '']'' \<and> c \<noteq> CHR ''}''"
proof (cases v)
  case (JNumber i)
  obtain c cs where "number_text i = c # cs" "is_digit c \<or> c = CHR ''-''"
    using number_text_start by blast
  with JNumber show ?thesis
    using is_digit_facts(1,8,9) space_facts(11) by auto
next
  case (JString s)
  then show ?thesis by (simp add: quote_string_def space_facts)
next
  case (JArray vs)
  then show ?thesis by (simp add: Let_def space_facts)
next
  case (JObject kvs)
  then show ?thesis by (simp add: Let_def space_facts)
qed (simp_all add: space_facts)

lemma value_end_facts:
  "value_end (CHR '','' # r)" "value_end (CHR '']'' # r)" "value_end (CHR ''}'' # r)" "value_end []"
  "list_all json_space w \<Longrightarrow> value_end (w @ CHR '']'' # r)"
  "list_all json_space w \<Longrightarrow> value_end (w @ CHR ''}'' # r)"
  by (cases w; simp add: value_end_def)+

lemma parse_elements_intercalate:
  assumes "\<And>v fuel ws rest. v \<in> set vs \<Longrightarrow> list_all json_space ws \<Longrightarrow> value_end rest
             \<Longrightarrow> length (ser v) < fuel \<Longrightarrow> parse_value fuel (ws @ ser v @ rest) = Some (v, rest)"
    and "vs \<noteq> []" and "list_all json_space w0" and "list_all json_space w1" and "list_all json_space w2"
    and "length (intercalate (CHR '','' # w1) (map ser vs)) + 2 \<le> fuel"
  shows "parse_elements fuel (w0 @ intercalate (CHR '','' # w1) (map ser vs) @ w2 @ CHR '']'' # rest)
           = Some (vs, rest)"
  using assms
proof (induction vs arbitrary: fuel w0)
  case Nil
  then show ?case by simp
next
  case (Cons v vs')
  obtain n where fuel: "fuel = Suc n" using Cons.prems(6) by (cases fuel) auto
  show ?case
  proof (cases vs')
    case Nil
    have len: "length (ser v) < n" using Cons.prems(6) fuel Nil by simp
    have "parse_value n (w0 @ ser v @ (w2 @ CHR '']'' # rest)) = Some (v, w2 @ CHR '']'' # rest)"
      using Cons.prems(1) [of v w0 "w2 @ CHR '']'' # rest" n] Cons.prems(3,5) len
      by (simp add: value_end_facts)
    moreover have "skip_ws (w2 @ CHR '']'' # rest) = CHR '']'' # rest"
      using Cons.prems(5) by (simp add: skip_ws_pad space_facts)
    ultimately show ?thesis using Nil fuel by simp
  next
    case (Cons v' vs'')
    let ?tail = "CHR '','' # w1 @ intercalate (CHR '','' # w1) (map ser vs') @ w2 @ CHR '']'' # rest"
    have len: "length (ser v) < n" using Cons.prems(6) fuel Cons by simp
    have len': "length (intercalate (CHR '','' # w1) (map ser vs')) + 2 \<le> n"
      using Cons.prems(6) fuel Cons by simp
    have "parse_value n (w0 @ ser v @ ?tail) = Some (v, ?tail)"
      using Cons.prems(1) [of v w0 ?tail n] Cons.prems(3) len
      by (simp add: value_end_facts)
    moreover have "skip_ws ?tail = ?tail"
      using skip_ws_pad [of "[]"] by (simp add: space_facts)
    moreover have "parse_elements n (w1 @ intercalate (CHR '','' # w1) (map ser vs') @ w2 @ CHR '']'' # rest)
        = Some (vs', rest)"
      using Cons.IH [of w1 n] Cons.prems(1,4,5) Cons len' by simp
    ultimately show ?thesis using Cons fuel by (simp add: cons_fst_def)
  qed
qed

lemma parse_members_intercalate:
  assumes "\<And>k v fuel ws rest. (k, v) \<in> set kvs \<Longrightarrow> list_all json_space ws \<Longrightarrow> value_end rest
             \<Longrightarrow> length (ser v) < fuel \<Longrightarrow> parse_value fuel (ws @ ser v @ rest) = Some (v, rest)"
    and "kvs \<noteq> []" and "list_all json_space w0" and "list_all json_space w1" and "list_all json_space w2"
    and "list_all json_space w3"
    and "length (intercalate (CHR '','' # w1)
           (map (\<lambda>(k, v). quote_string k @ CHR '':'' # w3 @ ser v) kvs)) + 2 \<le> fuel"
  shows "parse_members fuel (w0 @ intercalate (CHR '','' # w1)
           (map (\<lambda>(k, v). quote_string k @ CHR '':'' # w3 @ ser v) kvs) @ w2 @ CHR ''}'' # rest)
           = Some (kvs, rest)"
  using assms
proof (induction kvs arbitrary: fuel w0)
  case Nil
  then show ?case by simp
next
  case (Cons kv kvs')
  obtain k v where kv: "kv = (k, v)" by (cases kv)
  obtain n where fuel: "fuel = Suc n" using Cons.prems(7) by (cases fuel) auto
  have key: "parse_chars (concat (map escape_char k) @ dquote # t) = Some (k, t)" for t
    by (rule parse_chars_quoted)
  have colon: "skip_ws (CHR '':'' # t) = CHR '':'' # t" for t
    using skip_ws_pad [of "[]"] by (simp add: space_facts)
  have start: "skip_ws (w0 @ dquote # t) = dquote # t" for t
    using Cons.prems(3) by (simp add: skip_ws_pad space_facts)
  show ?case
  proof (cases kvs')
    case Nil
    have len: "length (ser v) < n" using Cons.prems(7) fuel Nil kv by (simp add: quote_string_def)
    have "parse_value n (w3 @ ser v @ (w2 @ CHR ''}'' # rest)) = Some (v, w2 @ CHR ''}'' # rest)"
      using Cons.prems(1) [of k v w3 "w2 @ CHR ''}'' # rest" n] Cons.prems(5,6) len kv
      by (simp add: value_end_facts)
    moreover have "skip_ws (w2 @ CHR ''}'' # rest) = CHR ''}'' # rest"
      using Cons.prems(5) by (simp add: skip_ws_pad space_facts)
    ultimately show ?thesis using Nil fuel kv
      by (simp add: quote_string_def start key colon)
  next
    case (Cons kv' kvs'')
    let ?mem = "\<lambda>(k, v). quote_string k @ CHR '':'' # w3 @ ser v"
    let ?tail = "CHR '','' # w1 @ intercalate (CHR '','' # w1) (map ?mem kvs') @ w2 @ CHR ''}'' # rest"
    have len: "length (ser v) < n" using Cons.prems(7) fuel Cons kv by (simp add: quote_string_def)
    have len': "length (intercalate (CHR '','' # w1) (map ?mem kvs')) + 2 \<le> n"
      using Cons.prems(7) fuel Cons kv by simp
    have "parse_value n (w3 @ ser v @ ?tail) = Some (v, ?tail)"
      using Cons.prems(1) [of k v w3 ?tail n] Cons.prems(6) len kv
      by (simp add: value_end_facts)
    moreover have "skip_ws ?tail = ?tail"
      using skip_ws_pad [of "[]"] by (simp add: space_facts)
    moreover have "parse_members n (w1 @ intercalate (CHR '','' # w1) (map ?mem kvs') @ w2 @ CHR ''}'' # rest)
        = Some (kvs', rest)"
    proof (rule Cons.IH)
      fix k' v' fuel' ws' rest'
      assume "(k', v') \<in> set kvs'" "list_all json_space ws'" "value_end rest'" "length (ser v') < fuel'"
      then show "parse_value fuel' (ws' @ ser v' @ rest') = Some (v', rest')"
        using Cons.prems(1) [of k' v' ws' rest' fuel'] by simp
    qed (use Cons.prems(4,5,6) Cons len' in simp_all)
    ultimately show ?thesis using Cons fuel kv
      by (simp add: cons_fst_def quote_string_def start key colon space_facts)
  qed
qed

lemma intercalate_Cons:
  "intercalate sep (x # xs) = x @ (if xs = [] then [] else sep @ intercalate sep xs)"
  by (cases xs) simp_all

lemma serialize_array:
  "vs \<noteq> [] \<Longrightarrow> serialize gap ind (JArray vs) =
     CHR ''['' # (if gap = [] then [] else CHR ''\<newline>'' # ind @ gap)
       @ intercalate (CHR '','' # (if gap = [] then [] else CHR ''\<newline>'' # ind @ gap))
           (map (serialize gap (ind @ gap)) vs)
       @ (if gap = [] then [] else CHR ''\<newline>'' # ind) @ '']''"
  by (simp add: Let_def)

lemma serialize_object:
  "kvs \<noteq> [] \<Longrightarrow> serialize gap ind (JObject kvs) =
     CHR ''{'' # (if gap = [] then [] else CHR ''\<newline>'' # ind @ gap)
       @ intercalate (CHR '','' # (if gap = [] then [] else CHR ''\<newline>'' # ind @ gap))
           (map (\<lambda>(k, v). quote_string k @ CHR '':'' # (if gap = [] then [] else '' '')
                            @ serialize gap (ind @ gap) v) kvs)
       @ (if gap = [] then [] else CHR ''\<newline>'' # ind) @ ''}''"
proof -
  have "(\<lambda>(k, v). quote_string k @ '':'' @ (if gap = [] then [] else '' '') @ serialize gap (ind @ gap) v)
      = (\<lambda>(k, v). quote_string k @ CHR '':'' # (if gap = [] then [] else '' '') @ serialize gap (ind @ gap) v)"
    by (simp add: fun_eq_iff)
  then show "kvs \<noteq> [] \<Longrightarrow> ?thesis" by (simp add: Let_def)
qed

lemma parse_value_serialize:
  assumes gap: "list_all json_space gap"
  shows "list_all json_space ind \<Longrightarrow> list_all json_space ws \<Longrightarrow> value_end rest
    \<Longrightarrow> length (serialize gap ind v) < fuel
    \<Longrightarrow> parse_value fuel (ws @ serialize gap ind v @ rest) = Some (v, rest)"
proof (induction v arbitrary: ind ws rest fuel)
  case JNull
  then obtain n where "fuel = Suc n" by (cases fuel) auto
  with JNull show ?case by (simp add: skip_ws_pad space_facts)
next
  case (JBool b)
  then obtain n where "fuel = Suc n" by (cases fuel) auto
  with JBool show ?case by (cases b) (simp_all add: skip_ws_pad space_facts)
next
  case (JNumber i)
  then obtain n where fuel: "fuel = Suc n" by (cases fuel) auto
  obtain c cs where c: "number_text i = c # cs" "is_digit c \<or> c = CHR ''-''"
    using number_text_start by blast
  have "parse_value (Suc n) (ws @ c # (cs @ rest)) = parse_number (c # (cs @ rest))"
    using JNumber(2) c(2) by (rule parse_value_number)
  moreover have "parse_number (number_text i @ rest) = Some (JNumber i, rest)"
    using JNumber(3) by (intro parse_number_text value_end_number_end)
  ultimately show ?case using fuel c(1) by simp
next
  case (JString s)
  then obtain n where "fuel = Suc n" by (cases fuel) auto
  with JString show ?case
    by (simp add: quote_string_def skip_ws_pad space_facts parse_chars_quoted)
next
  case (JArray vs)
  then obtain n where fuel: "fuel = Suc n" by (cases fuel) auto
  show ?case
  proof (cases "vs = []")
    case True
    have "skip_ws (CHR '']'' # rest) = CHR '']'' # rest"
      using skip_ws_pad [of "[]"] by (simp add: space_facts)
    with True fuel JArray(3) show ?thesis
      by (simp add: skip_ws_pad space_facts)
  next
    case False
    define w0 where "w0 = (if gap = [] then [] else CHR ''\<newline>'' # ind @ gap)"
    define w2 where "w2 = (if gap = [] then [] else CHR ''\<newline>'' # ind)"
    define E where "E = intercalate (CHR '','' # w0) (map (serialize gap (ind @ gap)) vs)"
    have ws: "list_all json_space w0" "list_all json_space w2" "list_all json_space (ind @ gap)"
      using gap JArray(2) by (simp_all add: w0_def w2_def space_facts)
    have shape: "serialize gap ind (JArray vs) = CHR ''['' # w0 @ E @ w2 @ '']''"
      unfolding w0_def w2_def E_def by (rule serialize_array [OF False])
    obtain v1 vs1 where vs: "vs = v1 # vs1" using False by (cases vs) auto
    obtain c cs where c: "serialize gap (ind @ gap) v1 = c # cs" "\<not> json_space c" "c \<noteq> CHR '']''"
      using serialize_start by blast
    then obtain es where es: "E = c # es"
      by (simp add: E_def vs intercalate_Cons)
    have first: "skip_ws (w0 @ E @ w2 @ CHR '']'' # rest) = c # es @ w2 @ CHR '']'' # rest"
      using ws(1) c(2) by (simp add: es skip_ws_pad)
    have "length E + 2 \<le> n" using JArray(5) fuel by (simp add: shape del: serialize.simps)
    then have "parse_elements n (w0 @ E @ w2 @ CHR '']'' # rest) = Some (vs, rest)"
      unfolding E_def
      using JArray.IH ws False
      by (intro parse_elements_intercalate) simp_all
    moreover have "skip_ws (ws @ CHR ''['' # w0 @ E @ w2 @ CHR '']'' # rest)
        = CHR ''['' # w0 @ E @ w2 @ CHR '']'' # rest"
      using JArray(3) by (simp add: skip_ws_pad space_facts)
    ultimately show ?thesis
      using fuel first c(3) by (simp add: shape del: serialize.simps)
  qed
next
  case (JObject kvs)
  then obtain n where fuel: "fuel = Suc n" by (cases fuel) auto
  show ?case
  proof (cases "kvs = []")
    case True
    have "skip_ws (CHR ''}'' # rest) = CHR ''}'' # rest"
      using skip_ws_pad [of "[]"] by (simp add: space_facts)
    with True fuel JObject(3) show ?thesis
      by (simp add: skip_ws_pad space_facts)
  next
    case False
    define w0 where "w0 = (if gap = [] then [] else CHR ''\<newline>'' # ind @ gap)"
    define w2 where "w2 = (if gap = [] then [] else CHR ''\<newline>'' # ind)"
    define w3 where "w3 = (if gap = [] then [] else '' '')"
    define E where "E = intercalate (CHR '','' # w0)
      (map (\<lambda>(k, v). quote_string k @ CHR '':'' # w3 @ serialize gap (ind @ gap) v) kvs)"
    have ws: "list_all json_space w0" "list_all json_space w2" "list_all json_space w3"
      "list_all json_space (ind @ gap)"
      using gap JObject(2) by (simp_all add: w0_def w2_def w3_def space_facts)
    have shape: "serialize gap ind (JObject kvs) = CHR ''{'' # w0 @ E @ w2 @ ''}''"
      unfolding w0_def w2_def w3_def E_def by (rule serialize_object [OF False])
    obtain k1 v1 kvs1 where kvs: "kvs = (k1, v1) # kvs1" using False by (cases kvs) auto
    obtain es where es: "E = dquote # es"
      by (simp add: E_def kvs intercalate_Cons quote_string_def)
    have first: "skip_ws (w0 @ E @ w2 @ CHR ''}'' # rest) = dquote # es @ w2 @ CHR ''}'' # rest"
      using ws(1) by (simp add: es skip_ws_pad space_facts)
    have ih: "parse_value fuel' (ws' @ serialize gap (ind @ gap) v @ rest') = Some (v, rest')"
      if "(k, v) \<in> set kvs" "list_all json_space ws'" "value_end rest'"
        "length (serialize gap (ind @ gap) v) < fuel'" for k v fuel' ws' rest'
      using JObject.IH [of "(k, v)" v "ind @ gap" ws' rest' fuel'] that ws(4) by simp
    have "length E + 2 \<le> n" using JObject(5) fuel by (simp add: shape del: serialize.simps)
    then have "parse_members n (w0 @ E @ w2 @ CHR ''}'' # rest) = Some (kvs, rest)"
      unfolding E_def
      using ws False ih
      by (intro parse_members_intercalate) simp_all
    moreover have "skip_ws (ws @ CHR ''{'' # w0 @ E @ w2 @ CHR ''}'' # rest)
        = CHR ''{'' # w0 @ E @ w2 @ CHR ''}'' # rest"
      using JObject(3) by (simp add: skip_ws_pad space_facts)
    ultimately show ?thesis
      using fuel first by (simp add: shape space_facts del: serialize.simps)
  qed
qed

lemma mem_parse_serialize:
  assumes "list_all json_space gap"
  shows "mem_parse (serialize gap [] v) = Inr v"
proof -
  obtain c cs where c: "serialize gap [] v = c # cs" "\<not> json_space c"
    using serialize_start by blast
  then have ne: "skip_ws (serialize gap [] v) \<noteq> []"
    using skip_ws_pad [of "[]" c cs] by simp
  have "parse_value (Suc (length (serialize gap [] v))) ([] @ serialize gap [] v @ []) = Some (v, [])"
    using assms by (intro parse_value_serialize) (simp_all add: value_end_facts)
  with ne show ?thesis by (simp add: mem_parse_def skip_ws_def)
qed

lemma mem_serializable: "serializable mem_platform v n"
proof -
  have "list_all json_space (replicate (nat (min n 10)) CHR '' '')"
    by (simp add: list_all_iff space_facts)
  then show ?thesis
    by (simp add: serializable_def mem_platform_def mem_stringify_def mem_parse_serialize)
qed

section \<open>Properties of JsonDb\<close>

lemma mem_read_after_write: "read_after_write mem_platform"
  by (auto simp: read_after_write_def mem_platform_def mem_writeFileSync_def mem_readFileSync_def
      split: if_splits)

text \<open>Storing into a directory that does not exist yet, on an empty file system.\<close>

lemma mem_store_new_directory:
  assumes "mem_dirname p = d" and "d \<noteq> p"
  shows "\<exists>t. store mem_platform p v None [] = (Inr (), [(p, File t), (d, Directory)])"
  using assms
  by (simp add: store_def mem_platform_def mem_mkdirSync_def mem_stringify_def mem_writeFileSync_def
      Let_def)

lemma mem_dirname_examples:
  "mem_dirname ''./test-data-sync/db.json'' = ''./test-data-sync''"
  "mem_dirname ''./test-data-edge-cases/large-data.json'' = ''./test-data-edge-cases''"
  "mem_dirname ''./test-data-edge-cases/empty-object.json'' = ''./test-data-edge-cases''"
  "mem_dirname ''./test-data-edge-cases/empty-array.json'' = ''./test-data-edge-cases''"
  by code_simp+

text \<open>
  C2, amended. When \<open>readFileSync\<close> or \<open>JSON.parse\<close> throws, \<open>load\<close> throws. If the code
  of the error is \<open>ENOENT\<close>, the error of \<open>load\<close> is the file-not-found error: its message
  begins with \<open>File not found\<close>, which no wrapped error's message does, and it does not
  wrap the error underneath: it is the same error after every \<open>ENOENT\<close> error at that
  path, whatever the message of that error, the platform and the state of the file system.
  After any other error the message of \<open>load\<close> is \<open>Failed to load data from\<close>, the path, a
  colon and the message of the error underneath.
\<close>

theorem load_failure_kinds:
  fixes P :: "('s, 'v) platform"
  assumes "readFileSync P filePath fs = Inl e0
     \<or> (\<exists>c. readFileSync P filePath fs = Inr c \<and> JSON_parse P c = Inl e0)"
  shows "\<exists>e. load P filePath fs = Inl e \<and>
     (if code e0 = Some ''ENOENT''
      then prefix ''File not found'' (message e) \<and> \<not> prefix ''Failed to load data from '' (message e)
        \<and> (\<forall>(P' :: ('s, 'v) platform) fs' e1.
              code e1 = Some ''ENOENT''
              \<and> (readFileSync P' filePath fs' = Inl e1
                  \<or> (\<exists>c. readFileSync P' filePath fs' = Inr c \<and> JSON_parse P' c = Inl e1))
              \<longrightarrow> load P' filePath fs' = Inl e)
      else message e = ''Failed to load data from '' @ filePath @ '': '' @ message e0)"
proof (cases "code e0 = Some ''ENOENT''")
  case True
  have nf: "load P' filePath fs' = Inl (Error ''File not found '')"
    if "code e1 = Some ''ENOENT''"
      and "readFileSync P' filePath fs' = Inl e1
        \<or> (\<exists>c. readFileSync P' filePath fs' = Inr c \<and> JSON_parse P' c = Inl e1)"
    for P' :: "('s, 'v) platform" and fs' e1
    using that by (auto simp: load_def)
  have "load P filePath fs = Inl (Error ''File not found '')"
    using True assms by (rule nf)
  moreover have "prefix ''File not found'' (message (Error ''File not found ''))"
    "\<not> prefix ''Failed to load data from '' (message (Error ''File not found ''))"
    by (simp_all add: Error_def)
  ultimately show ?thesis using True nf by auto
next
  case False
  then have "load P filePath fs =
      Inl (Error (''Failed to load data from '' @ filePath @ '': '' @ message e0))"
    using assms by (auto simp: load_def)
  with False show ?thesis by (simp add: Error_def)
qed

text \<open>
  An empty file: \<open>JSON.parse\<close> throws, and \<open>load\<close> wraps its message. A missing file:
  \<open>readFileSync\<close> throws \<open>ENOENT\<close>, and \<open>load\<close> throws the file-not-found error, the same
  one when the parent directory exists and the underlying message is another.
\<close>

theorem load_failure_kinds_witness:
  "readFileSync mem_platform ''empty.json'' [(''empty.json'', File [])] = Inr []
   \<and> JSON_parse mem_platform [] = Inl (SyntaxError ''Unexpected end of JSON input'')
   \<and> (\<exists>e. load mem_platform ''empty.json'' [(''empty.json'', File [])] = Inl e
        \<and> message e = ''Failed to load data from empty.json: Unexpected end of JSON input'')
   \<and> readFileSync mem_platform ''missing.json'' [] = Inl (ENOENT ''open'' ''missing.json'')
   \<and> code (ENOENT ''open'' ''missing.json'') = Some ''ENOENT''
   \<and> (\<exists>e. load mem_platform ''missing.json'' [] = Inl e \<and> prefix ''File not found'' (message e)
        \<and> load mem_platform ''missing.json'' [(''other.json'', File ''{}'')] = Inl e)"
proof -
  have a: "readFileSync mem_platform ''empty.json'' [(''empty.json'', File [])] = Inr []"
    by code_simp
  have b: "JSON_parse mem_platform [] = Inl (SyntaxError ''Unexpected end of JSON input'')"
    by code_simp
  have c: "readFileSync mem_platform ''missing.json'' [] = Inl (ENOENT ''open'' ''missing.json'')"
    by code_simp
  have c': "readFileSync mem_platform ''missing.json'' [(''other.json'', File ''{}'')]
      = Inl (ENOENT ''open'' ''missing.json'')"
    by code_simp
  have d: "code (ENOENT ''open'' ''missing.json'') = Some ''ENOENT''"
    by (simp add: ENOENT_def errno_def)
  from a b have "readFileSync mem_platform ''empty.json'' [(''empty.json'', File [])]
       = Inl (SyntaxError ''Unexpected end of JSON input'')
     \<or> (\<exists>c. readFileSync mem_platform ''empty.json'' [(''empty.json'', File [])] = Inr c
           \<and> JSON_parse mem_platform c = Inl (SyntaxError ''Unexpected end of JSON input''))"
    by blast
  from load_failure_kinds [OF this]
  have 1: "\<exists>e. load mem_platform ''empty.json'' [(''empty.json'', File [])] = Inl e
        \<and> message e = ''Failed to load data from empty.json: Unexpected end of JSON input''"
    by (simp add: SyntaxError_def)
  from c have "readFileSync mem_platform ''missing.json'' [] = Inl (ENOENT ''open'' ''missing.json'')
     \<or> (\<exists>c. readFileSync mem_platform ''missing.json'' [] = Inr c
           \<and> JSON_parse mem_platform c = Inl (ENOENT ''open'' ''missing.json''))"
    by blast
  from load_failure_kinds [OF this] d c'
  have 2: "\<exists>e. load mem_platform ''missing.json'' [] = Inl e \<and> prefix ''File not found'' (message e)
        \<and> load mem_platform ''missing.json'' [(''other.json'', File ''{}'')] = Inl e"
    by auto
  from a b c d 1 2 show ?thesis by blast
qed

text \<open>
  C2 as it is stated fails on a missing file: \<open>readFileSync\<close> throws the \<open>ENOENT\<close> error,
  and the message of the error of \<open>load\<close> does not contain that error's message.
\<close>

theorem load_missing_file_counterexample:
  "readFileSync mem_platform ''missing.json'' [] = Inl (ENOENT ''open'' ''missing.json'')
   \<and> code (ENOENT ''open'' ''missing.json'') = Some ''ENOENT''
   \<and> load mem_platform ''missing.json'' [] = Inl (Error ''File not found '')
   \<and> \<not> sublist (message (ENOENT ''open'' ''missing.json'')) (message (Error ''File not found ''))"
  by code_simp

text \<open>
  C5. When \<open>store\<close> has written a value to a path, on a platform where a written file
  reads back as written, and the value has a JSON text at the indentation in use that
  parses back to it, \<open>load\<close> of that path returns the value.
\<close>

theorem store_load_roundtrip:
  assumes "store P filePath v options fs = (Inr (), fs')"
    and "read_after_write P"
    and "serializable P v (effective_indent options)"
  shows "load P filePath fs' = Inr v"
proof -
  obtain t where t: "JSON_stringify P v (effective_indent options) = Inr (Some t)" "JSON_parse P t = Inr v"
    using assms(3) by (auto simp: serializable_def split: sum.splits option.splits)
  obtain fs1 where "writeFileSync P filePath (Some t) fs1 = (Inr (), fs')"
    using assms(1) t(1)
    by (auto simp: store_def Let_def effective_indent_def
        split: prod.splits sum.splits option.splits if_splits)
  with assms(2) have "readFileSync P filePath fs' = Inr t"
    by (auto simp: read_after_write_def)
  with t(2) show ?thesis by (simp add: load_def)
qed

text \<open>
  The values of the tests on the in-memory platform, each stored in a directory that does
  not exist yet: the empty object, the empty array, the nested object and the object of a
  thousand items.
\<close>

theorem store_load_roundtrip_witness:
  "read_after_write mem_platform
   \<and> fst (store mem_platform ''./test-data-edge-cases/empty-object.json'' (JObject []) None []) = Inr ()
   \<and> load mem_platform ''./test-data-edge-cases/empty-object.json''
        (snd (store mem_platform ''./test-data-edge-cases/empty-object.json'' (JObject []) None []))
         = Inr (JObject [])
   \<and> fst (store mem_platform ''./test-data-edge-cases/empty-array.json'' (JArray []) None []) = Inr ()
   \<and> load mem_platform ''./test-data-edge-cases/empty-array.json''
        (snd (store mem_platform ''./test-data-edge-cases/empty-array.json'' (JArray []) None []))
         = Inr (JArray [])
   \<and> fst (store mem_platform ''./test-data-sync/db.json'' complexData None []) = Inr ()
   \<and> serializable mem_platform complexData (effective_indent None)
   \<and> load mem_platform ''./test-data-sync/db.json''
        (snd (store mem_platform ''./test-data-sync/db.json'' complexData None [])) = Inr complexData
   \<and> fst (store mem_platform ''./test-data-edge-cases/large-data.json'' largeData None []) = Inr ()
   \<and> serializable mem_platform largeData (effective_indent None)
   \<and> load mem_platform ''./test-data-edge-cases/large-data.json''
        (snd (store mem_platform ''./test-data-edge-cases/large-data.json'' largeData None [])) = Inr largeData"
proof -
  have stored: "fst (store mem_platform p v None []) = Inr ()
        \<and> serializable mem_platform v (effective_indent None)
        \<and> load mem_platform p (snd (store mem_platform p v None [])) = Inr v"
    if dir: "mem_dirname p = d" and new: "d \<noteq> p" for p d v
  proof -
    obtain t where t: "store mem_platform p v None [] = (Inr (), [(p, File t), (d, Directory)])"
      using mem_store_new_directory [OF dir new] by auto
    have s: "serializable mem_platform v (effective_indent None)"
      by (rule mem_serializable)
    from store_load_roundtrip [OF t mem_read_after_write s] t s show ?thesis by simp
  qed
  from stored [OF mem_dirname_examples(1), of complexData]
    stored [OF mem_dirname_examples(2), of largeData]
    stored [OF mem_dirname_examples(3), of "JObject []"]
    stored [OF mem_dirname_examples(4), of "JArray []"]
    mem_read_after_write
  show ?thesis by simp
qed

text \<open>
  C8. \<open>exists\<close> never throws: it returns \<open>true\<close> exactly when \<open>accessSync\<close> returns, and
  \<open>false\<close> exactly when \<open>accessSync\<close> throws, whatever the error.
\<close>

theorem exists_never_raises:
  "(\<exists>b. exists P filePath fs = Inr b)
   \<and> (exists P filePath fs = Inr True \<longleftrightarrow> (\<exists>u. accessSync P filePath fs = Inr u))
   \<and> (exists P filePath fs = Inr False \<longleftrightarrow> (\<exists>e. accessSync P filePath fs = Inl e))"
  by (cases "accessSync P filePath fs") (auto simp: exists_def)

text \<open>Before the store the path does not exist; after it, it does.\<close>

theorem exists_never_raises_witness:
  "accessSync mem_platform ''./test-data-sync/db.json'' [] = Inl (ENOENT ''access'' ''./test-data-sync/db.json'')
   \<and> exists mem_platform ''./test-data-sync/db.json'' [] = Inr False
   \<and> accessSync mem_platform ''./test-data-sync/db.json''
        (snd (store mem_platform ''./test-data-sync/db.json'' complexData None [])) = Inr ()
   \<and> exists mem_platform ''./test-data-sync/db.json''
        (snd (store mem_platform ''./test-data-sync/db.json'' complexData None [])) = Inr True"
proof -
  obtain t where t: "store mem_platform ''./test-data-sync/db.json'' complexData None []
      = (Inr (), [(''./test-data-sync/db.json'', File t), (''./test-data-sync'', Directory)])"
    using mem_store_new_directory [OF mem_dirname_examples(1)] by auto
  have a: "accessSync mem_platform ''./test-data-sync/db.json'' []
      = Inl (ENOENT ''access'' ''./test-data-sync/db.json'')"
    by (simp add: mem_platform_def mem_accessSync_def)
  have b: "accessSync mem_platform ''./test-data-sync/db.json''
        (snd (store mem_platform ''./test-data-sync/db.json'' complexData None [])) = Inr ()"
    unfolding t by (simp add: mem_platform_def mem_accessSync_def)
  from a b
    exists_never_raises [of mem_platform "''./test-data-sync/db.json''" "[]"]
    exists_never_raises [of mem_platform "''./test-data-sync/db.json''"
      "snd (store mem_platform ''./test-data-sync/db.json'' complexData None [])"]
  show ?thesis by simp
qed

end
